theory Spec2Isabelle
  imports Main "HOL-Library.Word" "HOL-Library.AList"
begin

section \<open>Account reservation (core/asset/account.go)\<close>

text \<open>
  A shallow embedding of \<^verbatim>\<open>core/asset/account.go\<close>: the change splitter
  \<^verbatim>\<open>breakupChange\<close>, the reserver \<^verbatim>\<open>AccountReserver.Reserve\<close>, the destination
  factory \<^verbatim>\<open>NewAccountDestination\<close> and the annotator \<^verbatim>\<open>LoadAccountInfo\<close>.
  Go's \<^verbatim>\<open>uint64\<close> is a 64-bit word, a byte string is a list of bytes, a nil slice is
  the empty list and a nil pointer is \<open>None\<close>.
\<close>

type_synonym uint64 = "64 word"
type_synonym uint32 = "32 word"
type_synonym bytes = "8 word list"

subsection \<open>The random source (math/rand)\<close>

text \<open>
  Go's package-level generator is hidden mutable state. Here it is the sequence of raw
  draws still to come, passed in and returned: every call consumes the first draw and
  reduces it into the range asked for. Each value of \<open>[0, n)\<close> is reached by some draw,
  so a statement for every \<open>rand_source\<close> is a statement for every run of the generator.
  As documented for \<^verbatim>\<open>rand.Intn\<close> and \<^verbatim>\<open>rand.Int63n\<close>, a call with
  \<open>n \<le> 0\<close> panics.
\<close>

type_synonym rand_source = "nat \<Rightarrow> nat"

datatype panic = Panic string

definition rand_advance :: "rand_source \<Rightarrow> rand_source" where
  "rand_advance g = (\<lambda>i. g (Suc i))"

definition rand_Intn :: "int \<Rightarrow> rand_source \<Rightarrow> (panic + int) \<times> rand_source" where
  "rand_Intn n g =
     (if n \<le> 0 then (Inl (Panic ''invalid argument to Intn''), g)
      else (Inr (int (g 0) mod n), rand_advance g))"

definition rand_Int63n :: "int \<Rightarrow> rand_source \<Rightarrow> (panic + int) \<times> rand_source" where
  "rand_Int63n n g =
     (if n \<le> 0 then (Inl (Panic ''invalid argument to Int63n''), g)
      else (Inr (int (g 0) mod n), rand_advance g))"

subsection \<open>Facts about 64-bit words used by the splitter\<close>

lemma sint_pos_uint:
  fixes w :: uint64
  assumes "0 < sint w"
  shows "sint w = uint w"
proof -
  have "sint w < 2 ^ 63" using sint_lt [of w] by simp
  then have "sint w < 2 ^ 64" by simp
  with assms have "take_bit 64 (sint w) = sint w"
    by (simp add: take_bit_int_eq_self)
  then show ?thesis using uint_sint [of w] by simp
qed

lemma uint_small_sint:
  fixes w :: uint64
  assumes "uint w < 2 ^ 63"
  shows "sint w = uint w"
proof -
  have "sint w = signed_take_bit 63 (uint w)" using sint_uint [of w] by simp
  also have "\<dots> = uint w"
  proof (rule signed_take_bit_int_eq_self)
    show "- (2 ^ 63) \<le> uint w" by (rule order_trans [of _ 0]) simp_all
    show "uint w < 2 ^ 63" by (rule assms)
  qed
  finally show ?thesis .
qed

lemma draw_piece:
  fixes tot :: uint64 and r :: nat
  assumes pos: "0 < sint tot"
  defines "piece \<equiv> 1 + (word_of_int (int r mod sint tot) :: uint64)"
  shows "uint piece = 1 + int r mod sint tot" and "1 \<le> uint piece" and "uint piece \<le> uint tot"
    and "uint (tot - piece) = uint tot - uint piece"
proof -
  let ?v = "int r mod sint tot"
  have su: "sint tot = uint tot" using pos by (rule sint_pos_uint)
  have lt63: "sint tot < 2 ^ 63" using sint_lt [of tot] by simp
  have v0: "0 \<le> ?v" using pos by simp
  have v1: "?v < sint tot" using pos by simp
  have "1 + ?v < 2 ^ 64" using v1 lt63 by simp
  then have m: "(1 + ?v) mod 2 ^ LENGTH(64) = 1 + ?v" using v0 by simp
  have "piece = word_of_int (1 + ?v)" by (simp add: piece_def)
  then have "uint piece = (1 + ?v) mod 2 ^ LENGTH(64)" by (simp only: uint_word_of_int)
  then show p: "uint piece = 1 + ?v" by (simp only: m)
  show "1 \<le> uint piece" using p v0 by simp
  show le: "uint piece \<le> uint tot" using p v1 su by simp
  show "uint (tot - piece) = uint tot - uint piece"
    using le by (simp add: uint_sub_if')
qed

lemma piece_decreases:
  fixes tot :: uint64 and r :: nat
  assumes "0 < sint tot"
  shows "unat (tot - (1 + word_of_int (int r mod sint tot))) < unat tot"
proof -
  let ?piece = "1 + (word_of_int (int r mod sint tot) :: uint64)"
  have "uint (tot - ?piece) = uint tot - uint ?piece" and "1 \<le> uint ?piece"
    using draw_piece [OF assms, of r] by simp_all
  then have "uint (tot - ?piece) < uint tot" by simp
  then have "tot - ?piece < tot" by (simp add: word_less_def)
  then show ?thesis by (simp add: word_less_nat_alt)
qed

subsection \<open>breakupChange\<close>

text \<open>
  The loop of \<^verbatim>\<open>breakupChange\<close> (lines 94 to 98): \<^verbatim>\<open>&&\<close> draws the coin only when
  \<^verbatim>\<open>total > 1\<close>; \<^verbatim>\<open>int64(total)\<close> is \<open>sint\<close>, \<^verbatim>\<open>uint64(v)\<close> is \<open>word_of_int\<close>, and
  \<^verbatim>\<open>total -= thisChange\<close> is subtraction of words. The loop returns the pieces so far
  and what is left of the total.
\<close>

function breakupChange_loop ::
  "uint64 \<Rightarrow> uint64 list \<Rightarrow> rand_source \<Rightarrow> (panic + uint64 list \<times> uint64) \<times> rand_source" where
  "breakupChange_loop tot amounts g =
     (if 1 < tot then
        (case rand_Intn 2 g of
           (Inl p, g1) \<Rightarrow> (Inl p, g1)
         | (Inr coin, g1) \<Rightarrow>
             if coin = 0 then
               (case rand_Int63n (sint tot) g1 of
                  (Inl p, g2) \<Rightarrow> (Inl p, g2)
                | (Inr v, g2) \<Rightarrow>
                    (let thisChange = 1 + (word_of_int v :: uint64)
                     in breakupChange_loop (tot - thisChange) (amounts @ [thisChange]) g2))
             else (Inr (amounts, tot), g1))
      else (Inr (amounts, tot), g))"
  by pat_completeness auto
termination
proof (relation "measure (\<lambda>(tot, amounts, g). unat tot)", goal_cases)
  case 1
  show ?case by simp
next
  case (2 tot amounts g x y x2 xa ya x2a thisChange)
  then show ?case
    by (auto simp: rand_Int63n_def piece_decreases split: if_splits)
qed

declare breakupChange_loop.simps [simp del]

definition breakupChange :: "uint64 \<Rightarrow> rand_source \<Rightarrow> (panic + uint64 list) \<times> rand_source" where
  "breakupChange tot g =
     (case breakupChange_loop tot [] g of
        (Inl p, g') \<Rightarrow> (Inl p, g')
      | (Inr (amounts, tot'), g') \<Rightarrow>
          (if 0 < tot' then (Inr (amounts @ [tot']), g') else (Inr amounts, g')))"

subsection \<open>Errors\<close>

text \<open>
  Modelled from the spec: \<^verbatim>\<open>chain/errors\<close> is not part of the file. The spec says that an
  error is wrapped with a short stage tag for diagnostics and that its kind is preserved
  for programmatic handling: \<open>errors_Wrap\<close> puts the tag around the error and
  \<open>errors_Root\<close> reads the error that was wrapped first.
\<close>

datatype error = Error string | Wrapped error string

definition errors_Wrap :: "error \<Rightarrow> string \<Rightarrow> error" where
  "errors_Wrap err msg = Wrapped err msg"

fun errors_Root :: "error \<Rightarrow> error" where
  "errors_Root (Error kind) = Error kind"
| "errors_Root (Wrapped err msg) = errors_Root err"

text \<open>A Go call ends with an error value or unwinds with a panic.\<close>

datatype failure = Err error | Panicked panic

subsection \<open>Data\<close>

record bc_AssetAmount =
  AssetID :: bytes
  Amount :: uint64

record AccountReserver =
  AccountID :: string
  TxHash :: "bytes option"
  OutputIndex :: "uint32 option"
  ClientToken :: "string option"

record utxodb_Source =
  Source_AssetID :: bytes
  Source_Amount :: uint64
  Source_AccountID :: string
  Source_TxHash :: "bytes option"
  Source_OutputIndex :: "uint32 option"
  Source_ClientToken :: "string option"

text \<open>The fields of \<^verbatim>\<open>utxodb.UTXO\<close> and \<^verbatim>\<open>utxodb.Change\<close> that \<^verbatim>\<open>Reserve\<close> reads.\<close>

record utxodb_UTXO =
  UTXO_Hash :: bytes
  UTXO_Index :: uint32
  UTXO_AssetID :: bytes
  UTXO_Amount :: uint64
  UTXO_Script :: bytes
  UTXO_AccountID :: string
  UTXO_ControlProgramIndex :: "uint32 list"

record utxodb_Change =
  Change_Source :: utxodb_Source
  Change_Amount :: uint64

text \<open>The account found by \<^verbatim>\<open>accounts.Find\<close>; \<open>'k\<close> is the type of extended public keys.\<close>

record 'k signers_Signer =
  Signer_ID :: string
  XPubs :: "'k list"
  Quorum :: int

datatype keySpace = AssetKeySpace | AccountKeySpace

text \<open>
  Modelled from the spec: \<^verbatim>\<open>bc.NewSpendInput\<close> builds the transaction input from the
  outpoint, the asset, the amount and the previous output's script; the input keeps the
  arguments it was built from.
\<close>

record bc_TxInput =
  TxInput_Hash :: bytes
  TxInput_Index :: uint32
  TxInput_Arguments :: "bytes list"
  TxInput_AssetID :: bytes
  TxInput_Amount :: uint64
  TxInput_ControlProgram :: bytes
  TxInput_ReferenceData :: bytes

definition bc_NewSpendInput ::
  "bytes \<Rightarrow> uint32 \<Rightarrow> bytes list \<Rightarrow> bytes \<Rightarrow> uint64 \<Rightarrow> bytes \<Rightarrow> bytes \<Rightarrow> bc_TxInput" where
  "bc_NewSpendInput txhash index arguments assetID amount controlProgram referenceData =
     \<lparr>TxInput_Hash = txhash, TxInput_Index = index, TxInput_Arguments = arguments,
      TxInput_AssetID = assetID, TxInput_Amount = amount,
      TxInput_ControlProgram = controlProgram, TxInput_ReferenceData = referenceData\<rparr>"

text \<open>
  Modelled from the spec: \<^verbatim>\<open>txbuilder.Input\<close> is the template input, with the asset, the
  amount and the witness components; \<^verbatim>\<open>AddWitnessSigs\<close> appends the signer identifiers
  with the quorum, \<^verbatim>\<open>AddWitnessData\<close> appends a datum. \<open>'s\<close> is the type of signer
  identifiers (signature placeholders).
\<close>

datatype 's WitnessComponent =
  SignatureWitness "'s list" int bytes
| DataWitness bytes

record 's txbuilder_Input =
  Input_AssetID :: bytes
  Input_Amount :: uint64
  WitnessComponents :: "'s WitnessComponent list"

definition AddWitnessSigs ::
  "'s list \<Rightarrow> int \<Rightarrow> bytes \<Rightarrow> 's txbuilder_Input \<Rightarrow> 's txbuilder_Input" where
  "AddWitnessSigs sigs nreq program inp =
     inp\<lparr>WitnessComponents := WitnessComponents inp @ [SignatureWitness sigs nreq program]\<rparr>"

definition AddWitnessData :: "bytes \<Rightarrow> 's txbuilder_Input \<Rightarrow> 's txbuilder_Input" where
  "AddWitnessData data inp =
     inp\<lparr>WitnessComponents := WitnessComponents inp @ [DataWitness data]\<rparr>"

record 's txbuilder_ReserveResultItem =
  TxInput :: bc_TxInput
  TemplateInput :: "'s txbuilder_Input"

record AccountReceiver =
  controlProgram :: bytes
  accountID :: string

definition PKScript :: "AccountReceiver \<Rightarrow> bytes" where
  "PKScript receiver = controlProgram receiver"

definition NewAccountReceiver :: "bytes \<Rightarrow> string \<Rightarrow> AccountReceiver" where
  "NewAccountReceiver cp acc = \<lparr>controlProgram = cp, accountID = acc\<rparr>"

record txbuilder_Destination =
  Dest_AssetAmount :: bc_AssetAmount
  Metadata :: bytes
  Receiver :: AccountReceiver

record 's txbuilder_ReserveResult =
  Items :: "'s txbuilder_ReserveResultItem list"
  Change :: "txbuilder_Destination list"

subsection \<open>Collaborators\<close>

text \<open>
  The packages \<^verbatim>\<open>Reserve\<close> calls are parameters. The calls that go to the database
  take the state \<open>'w\<close> of the outside world and return the new one with their result;
  key derivation and script construction are functions. \<open>'p\<close> is the type of raw
  public keys.
\<close>

record ('w, 'k, 'p, 's) collaborators =
  utxodb_Reserve ::
    "utxodb_Source list \<Rightarrow> int \<Rightarrow> 'w \<Rightarrow> (error + utxodb_UTXO list \<times> utxodb_Change list) \<times> 'w"
  accounts_Find :: "string \<Rightarrow> 'w \<Rightarrow> (error + 'k signers_Signer) \<times> 'w"
  accounts_CreateControlProgram :: "string \<Rightarrow> 'w \<Rightarrow> (error + bytes) \<times> 'w"
  signers_Path :: "'k signers_Signer \<Rightarrow> keySpace \<Rightarrow> uint32 list \<Rightarrow> uint32 list"
  hd25519_DeriveXPubs :: "'k list \<Rightarrow> uint32 list \<Rightarrow> 'k list"
  hd25519_XPubKeys :: "'k list \<Rightarrow> 'p list"
  txscript_MultiSigScript :: "'p list \<Rightarrow> int \<Rightarrow> error + bytes"
  txbuilder_InputSigs :: "'k list \<Rightarrow> uint32 list \<Rightarrow> 's list"

subsection \<open>NewAccountDestination\<close>

definition NewAccountDestination ::
  "('w, 'k, 'p, 's) collaborators \<Rightarrow> bc_AssetAmount \<Rightarrow> string \<Rightarrow> bytes \<Rightarrow> 'w
     \<Rightarrow> (error + txbuilder_Destination) \<times> 'w" where
  "NewAccountDestination c assetAmount acc metadata w =
     (case accounts_CreateControlProgram c acc w of
        (Inl err, w') \<Rightarrow> (Inl err, w')
      | (Inr acp, w') \<Rightarrow>
          (Inr \<lparr>Dest_AssetAmount = assetAmount, Metadata = metadata,
                Receiver = NewAccountReceiver acp acc\<rparr>, w'))"

subsection \<open>Reserve\<close>

text \<open>The body of the loop over the reserved outputs (lines 46 to 70), for one output.\<close>

definition reserve_item ::
  "('w, 'k, 'p, 's) collaborators \<Rightarrow> utxodb_UTXO \<Rightarrow> 'w
     \<Rightarrow> (error + 's txbuilder_ReserveResultItem) \<times> 'w" where
  "reserve_item c r w =
     (let txInput = bc_NewSpendInput (UTXO_Hash r) (UTXO_Index r) [] (UTXO_AssetID r)
                      (UTXO_Amount r) (UTXO_Script r) [];
          templateInput = \<lparr>Input_AssetID = [], Input_Amount = 0, WitnessComponents = []\<rparr>
      in case accounts_Find c (UTXO_AccountID r) w of
           (Inl err, w') \<Rightarrow> (Inl (errors_Wrap err ''get account info''), w')
         | (Inr inputAccount, w') \<Rightarrow>
             (let path = signers_Path c inputAccount AccountKeySpace (UTXO_ControlProgramIndex r);
                  derivedXPubs = hd25519_DeriveXPubs c (XPubs inputAccount) path;
                  derivedPKs = hd25519_XPubKeys c derivedXPubs
              in case txscript_MultiSigScript c derivedPKs (Quorum inputAccount) of
                   Inl err \<Rightarrow> (Inl (errors_Wrap err ''compute redeem script''), w')
                 | Inr redeemScript \<Rightarrow>
                     (let templateInput = templateInput\<lparr>Input_AssetID := UTXO_AssetID r\<rparr>;
                          templateInput = templateInput\<lparr>Input_Amount := UTXO_Amount r\<rparr>;
                          templateInput =
                            AddWitnessSigs (txbuilder_InputSigs c (XPubs inputAccount) path)
                              (Quorum inputAccount) [] templateInput;
                          templateInput = AddWitnessData redeemScript templateInput
                      in (Inr \<lparr>TxInput = txInput, TemplateInput = templateInput\<rparr>, w'))))"

text \<open>The loop over the reserved outputs: the first error ends the call.\<close>

fun reserve_items ::
  "('w, 'k, 'p, 's) collaborators \<Rightarrow> utxodb_UTXO list \<Rightarrow> 's txbuilder_ReserveResultItem list
     \<Rightarrow> 'w \<Rightarrow> (error + 's txbuilder_ReserveResultItem list) \<times> 'w" where
  "reserve_items c [] items w = (Inr items, w)"
| "reserve_items c (r # rs) items w =
     (case reserve_item c r w of
        (Inl err, w') \<Rightarrow> (Inl err, w')
      | (Inr item, w') \<Rightarrow> reserve_items c rs (items @ [item]) w')"

text \<open>The loop over the change amounts (lines 81 to 87).\<close>

fun change_destinations ::
  "('w, 'k, 'p, 's) collaborators \<Rightarrow> bytes \<Rightarrow> string \<Rightarrow> uint64 list
     \<Rightarrow> txbuilder_Destination list \<Rightarrow> 'w \<Rightarrow> (error + txbuilder_Destination list) \<times> 'w" where
  "change_destinations c asset acc [] dests w = (Inr dests, w)"
| "change_destinations c asset acc (changeAmount # rest) dests w =
     (case NewAccountDestination c \<lparr>AssetID = asset, Amount = changeAmount\<rparr> acc [] w of
        (Inl err, w') \<Rightarrow> (Inl (errors_Wrap err ''creating change destination''), w')
      | (Inr dest, w') \<Rightarrow> change_destinations c asset acc rest (dests @ [dest]) w')"

text \<open>The one source of the claim request (lines 30 to 37).\<close>

definition utxodbSource_of :: "AccountReserver \<Rightarrow> bc_AssetAmount \<Rightarrow> utxodb_Source" where
  "utxodbSource_of reserver assetAmount =
     \<lparr>Source_AssetID = AssetID assetAmount,
      Source_Amount = Amount assetAmount,
      Source_AccountID = AccountID reserver,
      Source_TxHash = TxHash reserver,
      Source_OutputIndex = OutputIndex reserver,
      Source_ClientToken = ClientToken reserver\<rparr>"

text \<open>
  \<^verbatim>\<open>Reserve\<close> takes the state of the world and the random source and returns them
  as the call left them. A panic of the splitter unwinds the call.
\<close>

definition Reserve ::
  "('w, 'k, 'p, 's) collaborators \<Rightarrow> AccountReserver \<Rightarrow> bc_AssetAmount \<Rightarrow> int
     \<Rightarrow> 'w \<times> rand_source \<Rightarrow> (failure + 's txbuilder_ReserveResult) \<times> 'w \<times> rand_source" where
  "Reserve c reserver assetAmount ttl st =
     (let (w, g) = st;
          utxodbSource = utxodbSource_of reserver assetAmount;
          utxodbSources = [utxodbSource]
      in case utxodb_Reserve c utxodbSources ttl w of
           (Inl err, w1) \<Rightarrow> (Inl (Err err), w1, g)
         | (Inr (reserved, change), w1) \<Rightarrow>
             (case reserve_items c reserved [] w1 of
                (Inl err, w2) \<Rightarrow> (Inl (Err err), w2, g)
              | (Inr items, w2) \<Rightarrow>
                  (if length change > 0 then
                     (case breakupChange (Change_Amount (change ! 0)) g of
                        (Inl p, g1) \<Rightarrow> (Inl (Panicked p), w2, g1)
                      | (Inr changeAmounts, g1) \<Rightarrow>
                          (case change_destinations c (AssetID assetAmount) (AccountID reserver)
                                  changeAmounts [] w2 of
                             (Inl err, w3) \<Rightarrow> (Inl (Err err), w3, g1)
                           | (Inr dests, w3) \<Rightarrow> (Inr \<lparr>Items = items, Change = dests\<rparr>, w3, g1)))
                   else (Inr \<lparr>Items = items, Change = []\<rparr>, w2, g))))"

subsection \<open>LoadAccountInfo\<close>

text \<open>
  Modelled from the spec: \<^verbatim>\<open>state.Output\<close> is the raw output, with its outpoint, asset
  amount, control program and reference data.
\<close>

record state_Output =
  Outpoint_Hash :: bytes
  Outpoint_Index :: uint32
  Output_AssetAmount :: bc_AssetAmount
  ControlProgram :: bytes
  ReferenceData :: bytes

text \<open>
  The annotated output, \<^verbatim>\<open>output\<close> of package \<^verbatim>\<open>asset\<close>. Its declaration is in another file of the package: \<^verbatim>\<open>keyIndex\<close>
  is an array of \<^verbatim>\<open>uint32\<close>, whose length is the parameter \<open>n\<close> below.
\<close>

record asset_output =
  Output :: state_Output
  output_AccountID :: string
  keyIndex :: "uint32 list"

text \<open>
  Go's \<^verbatim>\<open>copy(dst, src)\<close> overwrites the first \<open>min (length dst) (length src)\<close>
  elements of \<open>dst\<close>.
\<close>

definition go_copy :: "'a list \<Rightarrow> 'a list \<Rightarrow> 'a list" where
  "go_copy dst src = take (length dst) src @ drop (length src) dst"

text \<open>
  The map \<^verbatim>\<open>outsByScript\<close> is an association list; reading a key that is absent gives
  the nil slice. Go leaves the order of \<^verbatim>\<open>range\<close> over a map open; here it is the
  order in which the keys were first stored.
\<close>

definition map_index :: "('k \<times> 'v list) list \<Rightarrow> 'k \<Rightarrow> 'v list" where
  "map_index m k = (case map_of m k of None \<Rightarrow> [] | Some v \<Rightarrow> v)"

definition outsByScript_of :: "state_Output list \<Rightarrow> (bytes \<times> state_Output list) list" where
  "outsByScript_of outs =
     foldl (\<lambda>m out. AList.update (ControlProgram out)
                       (map_index m (ControlProgram out) @ [out]) m) [] outs"

definition scripts_of :: "state_Output list \<Rightarrow> bytes list" where
  "scripts_of outs = map fst (outsByScript_of outs)"

text \<open>The function handed to \<^verbatim>\<open>pg.ForQueryRows\<close> (lines 173 to 182), for one row.\<close>

definition row_callback ::
  "nat \<Rightarrow> (bytes \<times> state_Output list) list \<Rightarrow> asset_output list \<Rightarrow> string \<times> uint32 list \<times> bytes
     \<Rightarrow> asset_output list" where
  "row_callback n outsByScript result row =
     (case row of (acc, keyIdx, program) \<Rightarrow>
        foldl (\<lambda>result out.
                 result @ [\<lparr>Output = out, output_AccountID = acc,
                             keyIndex = go_copy (replicate n 0) keyIdx\<rparr>])
          result (map_index outsByScript program))"

text \<open>
  \<^verbatim>\<open>pg.ForQueryRows\<close> is a parameter: given the control programs, it yields the rows
  it handed to the callback and the error the query ended with, if any.
\<close>

definition LoadAccountInfo ::
  "(bytes list \<Rightarrow> (string \<times> uint32 list \<times> bytes) list \<times> error option) \<Rightarrow> nat
     \<Rightarrow> state_Output list \<Rightarrow> error + asset_output list" where
  "LoadAccountInfo pg_ForQueryRows n outs =
     (let outsByScript = outsByScript_of outs;
          scripts = map fst outsByScript;
          (rows, err) = pg_ForQueryRows scripts;
          result = foldl (row_callback n outsByScript) [] rows
      in case err of Some e \<Rightarrow> Inl e | None \<Rightarrow> Inr result)"

subsection \<open>An example\<close>

text \<open>
  The scenario of the spec: the account \<open>acc1\<close>, with three keys and a quorum of 2,
  owns outputs of the asset \<open>USD\<close>. The engine of the example is given the outputs it
  holds and the change buckets it reports; the account directory counts the control
  programs it has allocated and has room for three.
\<close>

definition USD :: bytes where
  "USD = [85, 83, 68]"

definition example_utxo :: "uint64 \<Rightarrow> utxodb_UTXO" where
  "example_utxo amount =
     \<lparr>UTXO_Hash = [7], UTXO_Index = 0, UTXO_AssetID = USD, UTXO_Amount = amount,
      UTXO_Script = [81], UTXO_AccountID = ''acc1'', UTXO_ControlProgramIndex = [0, 5]\<rparr>"

definition example_collaborators ::
  "utxodb_UTXO list \<Rightarrow> uint64 list \<Rightarrow> (nat, nat, nat, nat) collaborators" where
  "example_collaborators held buckets =
     \<lparr>utxodb_Reserve = (\<lambda>sources ttl w.
        case sources of
          [s] \<Rightarrow>
            if unat (Source_Amount s) \<le> sum_list (map (\<lambda>u. unat (UTXO_Amount u)) held)
            then (Inr (held, map (\<lambda>a. \<lparr>Change_Source = s, Change_Amount = a\<rparr>) buckets), w)
            else (Inl (Error ''InsufficientFunds''), w)
        | _ \<Rightarrow> (Inl (Error ''InvalidFilter''), w)),
      accounts_Find = (\<lambda>acc w.
        if acc = ''acc1'' then (Inr \<lparr>Signer_ID = ''acc1'', XPubs = [11, 12, 13], Quorum = 2\<rparr>, w)
        else (Inl (Error ''AccountNotFound''), w)),
      accounts_CreateControlProgram = (\<lambda>acc w.
        if w < 3 then (Inr [of_nat w], Suc w) else (Inl (Error ''AllocationFailed''), w)),
      signers_Path = (\<lambda>acct ks idx. (case ks of AssetKeySpace \<Rightarrow> 0 | AccountKeySpace \<Rightarrow> 1) # idx),
      hd25519_DeriveXPubs = (\<lambda>xpubs path. map (\<lambda>k. k + length path) xpubs),
      hd25519_XPubKeys = map (\<lambda>k. 2 * k),
      txscript_MultiSigScript = (\<lambda>pks q.
        if int (length pks) < q then Inl (Error ''QuorumExceedsKeys'') else Inr (map of_nat pks)),
      txbuilder_InputSigs = (\<lambda>xpubs path. xpubs)\<rparr>"

text \<open>What \<^verbatim>\<open>Reserve\<close> makes of the output of 200 held for \<open>acc1\<close>.\<close>

definition example_item :: "nat txbuilder_ReserveResultItem" where
  "example_item =
     \<lparr>TxInput = bc_NewSpendInput [7] 0 [] USD 200 [81] [],
      TemplateInput =
        \<lparr>Input_AssetID = USD, Input_Amount = 200,
         WitnessComponents = [SignatureWitness [11, 12, 13] 2 [], DataWitness [28, 30, 32]]\<rparr>\<rparr>"

text \<open>The change destination of the given amount on the \<open>k\<close>-th control program.\<close>

definition example_change :: "nat \<Rightarrow> uint64 \<Rightarrow> txbuilder_Destination" where
  "example_change k amount =
     \<lparr>Dest_AssetAmount = \<lparr>AssetID = USD, Amount = amount\<rparr>, Metadata = [],
      Receiver = \<lparr>controlProgram = [of_nat k], accountID = ''acc1''\<rparr>\<rparr>"

text \<open>Draws that split once: the coin says split, the piece is 17, the coin says stop.\<close>

definition example_draws :: rand_source where
  "example_draws = (\<lambda>i. if i = 0 then 0 else if i = 1 then 16 else 1)"

definition example_reserver :: AccountReserver where
  "example_reserver =
     \<lparr>AccountID = ''acc1'', TxHash = None, OutputIndex = None, ClientToken = None\<rparr>"

text \<open>
  The account index of the example answers from a table of rows; the index that is down
  fails. The raw outputs \<open>A\<close> and \<open>B\<close> share the program \<open>P\<close>, \<open>C\<close> has \<open>Q\<close>.
\<close>

definition example_index ::
  "(string \<times> uint32 list \<times> bytes) list \<Rightarrow> bytes list
     \<Rightarrow> (string \<times> uint32 list \<times> bytes) list \<times> error option" where
  "example_index table scripts = (filter (\<lambda>row. snd (snd row) \<in> set scripts) table, None)"

definition example_index_down ::
  "bytes list \<Rightarrow> (string \<times> uint32 list \<times> bytes) list \<times> error option" where
  "example_index_down scripts = ([], Some (Error ''IndexQueryFailed''))"

definition example_output :: "uint32 \<Rightarrow> bytes \<Rightarrow> state_Output" where
  "example_output i program =
     \<lparr>Outpoint_Hash = [7], Outpoint_Index = i,
      Output_AssetAmount = \<lparr>AssetID = USD, Amount = 10\<rparr>,
      ControlProgram = program, ReferenceData = []\<rparr>"

section \<open>Properties\<close>

subsection \<open>The change splitter\<close>

text \<open>
  One round of the loop, with the two draws written out: the coin is the first draw, the
  piece comes from the second.
\<close>

lemma breakupChange_loop_unfold:
  "breakupChange_loop tot amounts g =
     (if 1 < tot \<and> int (g 0) mod 2 = 0 then
        (if sint tot \<le> 0 then (Inl (Panic ''invalid argument to Int63n''), rand_advance g)
         else breakupChange_loop (tot - (1 + word_of_int (int (g 1) mod sint tot)))
                (amounts @ [1 + word_of_int (int (g 1) mod sint tot)])
                (rand_advance (rand_advance g)))
      else (Inr (amounts, tot), if 1 < tot then rand_advance g else g))"
  by (subst breakupChange_loop.simps)
     (simp add: rand_Intn_def rand_Int63n_def rand_advance_def Let_def)

lemma unat_small_uint: "unat (w::uint64) < 2 ^ 63 \<Longrightarrow> uint w < 2 ^ 63"
  by (metis of_nat_less_numeral_power_cancel_iff of_nat_unat)

lemma uint_pos_word: "1 \<le> uint (w::uint64) \<Longrightarrow> 0 < w"
  by (simp add: word_less_def)

lemma uint_add_unat:
  "uint (a::uint64) + uint (b::uint64) = uint (c::uint64) \<Longrightarrow> unat a + unat b = unat c"
  by (metis nat_int_add of_nat_unat unat_eq_nat_uint)

lemma piece_positive:
  fixes tot :: uint64 and r :: nat
  assumes "0 < sint tot"
  shows "0 < (1 + word_of_int (int r mod sint tot) :: uint64)"
    and "unat (1 + word_of_int (int r mod sint tot) :: uint64) + unat (tot - (1 + word_of_int (int r mod sint tot))) = unat tot"
proof -
  let ?piece = "1 + (word_of_int (int r mod sint tot) :: uint64)"
  note d = draw_piece [OF assms, of r]
  from d(2) show "0 < ?piece" by (rule uint_pos_word)
  have "uint ?piece + uint (tot - ?piece) = uint tot" using d(4) by simp
  then show "unat ?piece + unat (tot - ?piece) = unat tot"
    by (rule uint_add_unat)
qed

lemma breakupChange_loop_Inr:
  "breakupChange_loop tot amounts g = (Inr (amounts', tot'), g') \<Longrightarrow>
     \<exists>pieces. amounts' = amounts @ pieces \<and> (\<forall>p \<in> set pieces. 0 < p) \<and>
       sum_list (map unat pieces) + unat tot' = unat tot"
proof (induction "unat tot" arbitrary: tot amounts g rule: less_induct)
  case less
  show ?case
  proof (cases "1 < tot \<and> int (g 0) mod 2 = 0")
    case False
    with less.prems have "amounts' = amounts" "tot' = tot"
      by (simp_all add: breakupChange_loop_unfold [of tot])
    then show ?thesis by simp
  next
    case True
    let ?piece = "1 + (word_of_int (int (g 1) mod sint tot) :: uint64)"
    from True less.prems have pos: "0 < sint tot"
      by (simp add: breakupChange_loop_unfold [of tot] split: if_splits)
    with True less.prems have rec:
      "breakupChange_loop (tot - ?piece) (amounts @ [?piece]) (rand_advance (rand_advance g)) =
         (Inr (amounts', tot'), g')"
      by (simp add: breakupChange_loop_unfold [of tot])
    from less.hyps [OF piece_decreases [OF pos] rec]
    obtain pieces where p: "amounts' = (amounts @ [?piece]) @ pieces" "\<forall>p \<in> set pieces. 0 < p"
      "sum_list (map unat pieces) + unat tot' = unat (tot - ?piece)" by blast
    have "amounts' = amounts @ (?piece # pieces)" using p(1) by simp
    moreover have "\<forall>p \<in> set (?piece # pieces). 0 < p"
      using p(2) piece_positive(1) [OF pos] by simp
    moreover have "sum_list (map unat (?piece # pieces)) + unat tot' = unat tot"
      using p(3) piece_positive(2) [OF pos, of "g 1"] by simp
    ultimately show ?thesis by blast
  qed
qed

lemma breakupChange_loop_Inl:
  "breakupChange_loop tot amounts g = (Inl p, g') \<Longrightarrow>
     p = Panic ''invalid argument to Int63n'' \<and> 2 ^ 63 \<le> unat tot"
proof (induction "unat tot" arbitrary: tot amounts g rule: less_induct)
  case less
  show ?case
  proof (cases "1 < tot \<and> int (g 0) mod 2 = 0")
    case False
    with less.prems show ?thesis
      by (simp add: breakupChange_loop_unfold [of tot])
  next
    case True
    let ?piece = "1 + (word_of_int (int (g 1) mod sint tot) :: uint64)"
    show ?thesis
    proof (cases "sint tot \<le> 0")
      case neg: True
      with True less.prems have "p = Panic ''invalid argument to Int63n''"
        by (simp add: breakupChange_loop_unfold [of tot])
      moreover have "2 ^ 63 \<le> unat tot"
      proof (rule ccontr)
        assume "\<not> 2 ^ 63 \<le> unat tot"
        then have "unat tot < 2 ^ 63" by simp
        then have "uint tot < 2 ^ 63" by (rule unat_small_uint)
        then have "sint tot = uint tot" by (rule uint_small_sint)
        moreover have "0 < uint tot" using True by (simp add: word_less_def)
        ultimately show False using neg by simp
      qed
      ultimately show ?thesis by simp
    next
      case False
      then have pos: "0 < sint tot" by simp
      with True less.prems have rec:
        "breakupChange_loop (tot - ?piece) (amounts @ [?piece]) (rand_advance (rand_advance g)) =
           (Inl p, g')"
        by (simp add: breakupChange_loop_unfold [of tot])
      from less.hyps [OF piece_decreases [OF pos] rec]
      have "p = Panic ''invalid argument to Int63n''" "2 ^ 63 \<le> unat (tot - ?piece)" by simp_all
      then show ?thesis using piece_decreases [OF pos, of "g 1"] by simp
    qed
  qed
qed


lemma breakupChange_Inr:
  assumes "breakupChange tot g = (Inr amounts, g')"
  shows "\<forall>a \<in> set amounts. 0 < a" and "sum_list (map unat amounts) = unat tot"
proof -
  from assms obtain pieces tot' where
    loop: "breakupChange_loop tot [] g = (Inr (pieces, tot'), g')" and
    res: "amounts = (if 0 < tot' then pieces @ [tot'] else pieces)"
    by (auto simp: breakupChange_def split: prod.splits sum.splits if_splits)
  from breakupChange_loop_Inr [OF loop]
  have pos: "\<forall>p \<in> set pieces. 0 < p" and sum: "sum_list (map unat pieces) + unat tot' = unat tot"
    by auto
  show "\<forall>a \<in> set amounts. 0 < a" using pos res by auto
  have "\<not> 0 < tot' \<Longrightarrow> unat tot' = 0" by (simp add: word_greater_zero_iff)
  then show "sum_list (map unat amounts) = unat tot" using sum res by auto
qed

lemma sum_list_ge_length:
  "\<forall>a \<in> set (xs :: uint64 list). 0 < a \<Longrightarrow> length xs \<le> sum_list (map unat xs)"
proof (induction xs)
  case Nil
  show ?case by simp
next
  case (Cons x xs)
  from Cons.prems have "0 < unat x" by (simp add: word_greater_zero_iff unat_gt_0)
  with Cons show ?case by simp
qed

lemma breakupChange_length:
  assumes "breakupChange tot g = (Inr amounts, g')"
  shows "length amounts \<le> unat tot"
  using breakupChange_Inr [OF assms] sum_list_ge_length [of amounts] by simp

lemma breakupChange_nonempty:
  assumes "breakupChange tot g = (Inr amounts, g')" and "0 < tot"
  shows "amounts \<noteq> []"
proof
  assume "amounts = []"
  with breakupChange_Inr(2) [OF assms(1)] have "unat tot = 0" by simp
  with assms(2) show False by (simp add: word_greater_zero_iff unat_eq_0)
qed

lemma breakupChange_outcome:
  "(\<exists>amounts g'. breakupChange tot g = (Inr amounts, g')) \<or>
   (\<exists>g'. breakupChange tot g = (Inl (Panic ''invalid argument to Int63n''), g') \<and> 2 ^ 63 \<le> unat tot)"
proof (cases "breakupChange_loop tot [] g")
  case (Pair r g')
  show ?thesis
  proof (cases r)
    case (Inl p)
    with Pair breakupChange_loop_Inl [of tot "[]" g p g'] show ?thesis
      by (simp add: breakupChange_def)
  next
    case (Inr q)
    with Pair show ?thesis
      by (cases q) (simp add: breakupChange_def)
  qed
qed

lemma breakupChange_returns:
  assumes "unat tot < 2 ^ 63"
  shows "\<exists>amounts g'. breakupChange tot g = (Inr amounts, g')"
  using breakupChange_outcome [of tot g] assms by auto

lemma breakupChange_0: "breakupChange 0 g = (Inr [], g)"
  by (simp add: breakupChange_def breakupChange_loop_unfold [of 0])

lemma breakupChange_1: "breakupChange 1 g = (Inr [1], g)"
  by (simp add: breakupChange_def breakupChange_loop_unfold [of 1])

text \<open>
  Below \<open>2 ^ 63\<close> the splitter does what the spec says of it: it returns, the pieces
  are positive, there is at least one for a total of at least 1, and they sum to the total.
\<close>

lemma breakupChange_below_2_63:
  assumes "1 \<le> tot" and "unat tot < 2 ^ 63"
  shows "\<exists>amounts g'. breakupChange tot g = (Inr amounts, g') \<and> amounts \<noteq> [] \<and>
           (\<forall>a \<in> set amounts. 0 < a) \<and> sum_list (map unat amounts) = unat tot"
proof -
  from breakupChange_returns [OF assms(2)] obtain amounts g' where
    r: "breakupChange tot g = (Inr amounts, g')" by blast
  from assms(1) have "0 < tot" by (simp add: word_greater_zero_iff) auto
  with r breakupChange_nonempty [OF r] breakupChange_Inr [OF r] show ?thesis by simp
qed

text \<open>
  C2. The claim is that for every total of at least 1 the splitter returns a non-empty
  sequence of positive pieces that sum to the total. The parameter is a \<^verbatim>\<open>uint64\<close>:
  from \<open>2 ^ 63\<close> on, \<^verbatim>\<open>int64(total)\<close> is negative, and when the coin says split
  \<^verbatim>\<open>rand.Int63n\<close> panics, so that nothing is returned. Here the total is \<open>2 ^ 63\<close>
  and every draw is 0.
\<close>

theorem breakupChange_panics_on_large_total:
  "fst (breakupChange (2 ^ 63) (\<lambda>_. 0)) = Inl (Panic ''invalid argument to Int63n'')"
  by code_simp

lemma breakupChange_loop_rounds:
  "(\<exists>amounts tot' g'. breakupChange_loop tot [] g = (Inr (amounts, tot'), g') \<and>
      length amounts + unat tot' \<le> unat tot) \<or>
   (\<exists>g'. breakupChange_loop tot [] g = (Inl (Panic ''invalid argument to Int63n''), g') \<and>
      2 ^ 63 \<le> unat tot)"
proof (cases "breakupChange_loop tot [] g")
  case (Pair r g')
  show ?thesis
  proof (cases r)
    case (Inl p)
    with Pair breakupChange_loop_Inl [of tot "[]" g p g'] show ?thesis by simp
  next
    case (Inr q)
    obtain amounts tot' where q: "q = (amounts, tot')" by (cases q)
    with Pair Inr have l: "breakupChange_loop tot [] g = (Inr (amounts, tot'), g')" by simp
    from breakupChange_loop_Inr [OF l] obtain pieces where
      p: "amounts = pieces" "\<forall>p \<in> set pieces. 0 < p"
         "sum_list (map unat pieces) + unat tot' = unat tot" by auto
    from sum_list_ge_length [OF p(2)] p(1,3) have "length amounts + unat tot' \<le> unat tot"
      by simp
    with l show ?thesis by blast
  qed
qed

text \<open>
  C9. The loop ends for every total and every sequence of draws: the function is total,
  its measure being the total left, which every round lowers by the piece drawn, at least
  1. It ends in one of two ways. Either the splitter returns, and then with at most
  \<open>max total 1\<close> pieces: the loop has run one round for each piece it returns, and
  their number and what is left of the total are together at most the total. Or a round
  panics in \<^verbatim>\<open>rand.Int63n\<close>, which needs a total of \<open>2 ^ 63\<close> or more.
\<close>

theorem breakupChange_terminates:
  "((\<exists>amounts g'. breakupChange tot g = (Inr amounts, g') \<and> length amounts \<le> max (unat tot) 1) \<or>
    (\<exists>g'. breakupChange tot g = (Inl (Panic ''invalid argument to Int63n''), g') \<and>
       2 ^ 63 \<le> unat tot)) \<and>
   ((\<exists>amounts tot' g'. breakupChange_loop tot [] g = (Inr (amounts, tot'), g') \<and>
       length amounts + unat tot' \<le> unat tot) \<or>
    (\<exists>g'. breakupChange_loop tot [] g = (Inl (Panic ''invalid argument to Int63n''), g') \<and>
       2 ^ 63 \<le> unat tot))"
proof (rule conjI)
  show "(\<exists>amounts g'. breakupChange tot g = (Inr amounts, g') \<and> length amounts \<le> max (unat tot) 1) \<or>
    (\<exists>g'. breakupChange tot g = (Inl (Panic ''invalid argument to Int63n''), g') \<and>
       2 ^ 63 \<le> unat tot)"
    using breakupChange_outcome [of tot g] breakupChange_length [of tot g] by fastforce
  show "(\<exists>amounts tot' g'. breakupChange_loop tot [] g = (Inr (amounts, tot'), g') \<and>
       length amounts + unat tot' \<le> unat tot) \<or>
    (\<exists>g'. breakupChange_loop tot [] g = (Inl (Panic ''invalid argument to Int63n''), g') \<and>
       2 ^ 63 \<le> unat tot)"
    by (rule breakupChange_loop_rounds)
qed

subsection \<open>Errors and destinations\<close>

lemma errors_Root_Wrap: "errors_Root (errors_Wrap err msg) = errors_Root err"
  by (simp add: errors_Wrap_def)

lemma NewAccountDestination_Inr:
  assumes "NewAccountDestination c assetAmount acc metadata w = (Inr d, w')"
  shows "\<exists>acp. accounts_CreateControlProgram c acc w = (Inr acp, w') \<and>
           d = \<lparr>Dest_AssetAmount = assetAmount, Metadata = metadata,
                 Receiver = NewAccountReceiver acp acc\<rparr>"
  using assms
  by (auto simp: NewAccountDestination_def split: prod.splits sum.splits)

lemma NewAccountDestination_Inl:
  assumes "NewAccountDestination c assetAmount acc metadata w = (Inl err, w')"
  shows "accounts_CreateControlProgram c acc w = (Inl err, w')"
  using assms
  by (auto simp: NewAccountDestination_def split: prod.splits sum.splits)

subsection \<open>The loops of Reserve\<close>

lemma reserve_item_Inr:
  assumes "reserve_item c r w = (Inr item, w')"
  shows "\<exists>acct script.
           accounts_Find c (UTXO_AccountID r) w = (Inr acct, w') \<and>
           txscript_MultiSigScript c
             (hd25519_XPubKeys c (hd25519_DeriveXPubs c (XPubs acct)
                (signers_Path c acct AccountKeySpace (UTXO_ControlProgramIndex r))))
             (Quorum acct) = Inr script \<and>
           TxInput item = bc_NewSpendInput (UTXO_Hash r) (UTXO_Index r) [] (UTXO_AssetID r)
                            (UTXO_Amount r) (UTXO_Script r) [] \<and>
           TemplateInput item =
             \<lparr>Input_AssetID = UTXO_AssetID r, Input_Amount = UTXO_Amount r,
              WitnessComponents =
                [SignatureWitness
                   (txbuilder_InputSigs c (XPubs acct)
                      (signers_Path c acct AccountKeySpace (UTXO_ControlProgramIndex r)))
                   (Quorum acct) [],
                 DataWitness script]\<rparr>"
  using assms
  by (auto simp: reserve_item_def Let_def AddWitnessSigs_def AddWitnessData_def
           split: prod.splits sum.splits)

lemma reserve_item_Inl:
  assumes "reserve_item c r w = (Inl e, w')"
  shows "(\<exists>err. accounts_Find c (UTXO_AccountID r) w = (Inl err, w') \<and>
            e = errors_Wrap err ''get account info'') \<or>
         (\<exists>acct err. accounts_Find c (UTXO_AccountID r) w = (Inr acct, w') \<and>
            txscript_MultiSigScript c
              (hd25519_XPubKeys c (hd25519_DeriveXPubs c (XPubs acct)
                 (signers_Path c acct AccountKeySpace (UTXO_ControlProgramIndex r))))
              (Quorum acct) = Inl err \<and>
            e = errors_Wrap err ''compute redeem script'')"
  using assms
  by (auto simp: reserve_item_def Let_def split: prod.splits sum.splits)

lemma reserve_items_Inr:
  assumes "reserve_items c rs items w = (Inr items', w')"
  shows "\<exists>new. items' = items @ new \<and>
           list_all2 (\<lambda>r item. \<exists>wa wb. reserve_item c r wa = (Inr item, wb)) rs new"
  using assms
proof (induction rs arbitrary: items w)
  case Nil
  then show ?case by simp
next
  case (Cons r rs)
  from Cons.prems obtain item w1 where
    it: "reserve_item c r w = (Inr item, w1)" and
    rest: "reserve_items c rs (items @ [item]) w1 = (Inr items', w')"
    by (auto split: prod.splits sum.splits)
  from Cons.IH [OF rest] obtain new where
    n: "items' = (items @ [item]) @ new"
       "list_all2 (\<lambda>r item. \<exists>wa wb. reserve_item c r wa = (Inr item, wb)) rs new" by blast
  have "items' = items @ (item # new)" using n(1) by simp
  moreover have "list_all2 (\<lambda>r item. \<exists>wa wb. reserve_item c r wa = (Inr item, wb)) (r # rs) (item # new)"
    using n(2) it by auto
  ultimately show ?case by blast
qed

lemma reserve_items_Inl:
  assumes "reserve_items c rs items w = (Inl e, w')"
  shows "\<exists>r \<in> set rs. \<exists>wa. reserve_item c r wa = (Inl e, w')"
  using assms
proof (induction rs arbitrary: items w)
  case Nil
  then show ?case by simp
next
  case (Cons r rs)
  show ?case
  proof (cases "reserve_item c r w")
    case (Pair res w1)
    show ?thesis
    proof (cases res)
      case (Inl err)
      with Pair Cons.prems have "reserve_item c r w = (Inl e, w')" by simp
      then show ?thesis by auto
    next
      case (Inr item)
      with Pair Cons.prems have "reserve_items c rs (items @ [item]) w1 = (Inl e, w')" by simp
      from Cons.IH [OF this] show ?thesis by auto
    qed
  qed
qed

lemma change_destinations_Inr:
  assumes "change_destinations c asset acc amounts dests w = (Inr dests', w')"
  shows "\<exists>new. dests' = dests @ new \<and>
           list_all2 (\<lambda>a d. \<exists>wa wb.
              NewAccountDestination c \<lparr>AssetID = asset, Amount = a\<rparr> acc [] wa = (Inr d, wb))
             amounts new"
  using assms
proof (induction amounts arbitrary: dests w)
  case Nil
  then show ?case by simp
next
  case (Cons a amounts)
  from Cons.prems obtain d w1 where
    it: "NewAccountDestination c \<lparr>AssetID = asset, Amount = a\<rparr> acc [] w = (Inr d, w1)" and
    rest: "change_destinations c asset acc amounts (dests @ [d]) w1 = (Inr dests', w')"
    by (auto split: prod.splits sum.splits)
  from Cons.IH [OF rest] obtain new where
    n: "dests' = (dests @ [d]) @ new"
       "list_all2 (\<lambda>a d. \<exists>wa wb.
              NewAccountDestination c \<lparr>AssetID = asset, Amount = a\<rparr> acc [] wa = (Inr d, wb))
             amounts new" by blast
  have "dests' = dests @ (d # new)" using n(1) by simp
  moreover have "list_all2 (\<lambda>a d. \<exists>wa wb.
              NewAccountDestination c \<lparr>AssetID = asset, Amount = a\<rparr> acc [] wa = (Inr d, wb))
             (a # amounts) (d # new)"
    using n(2) it by auto
  ultimately show ?case by blast
qed

lemma change_destinations_Inl:
  assumes "change_destinations c asset acc amounts dests w = (Inl e, w')"
  shows "\<exists>a \<in> set amounts. \<exists>wa err.
           NewAccountDestination c \<lparr>AssetID = asset, Amount = a\<rparr> acc [] wa = (Inl err, w') \<and>
           e = errors_Wrap err ''creating change destination''"
  using assms
proof (induction amounts arbitrary: dests w)
  case Nil
  then show ?case by simp
next
  case (Cons a amounts)
  show ?case
  proof (cases "NewAccountDestination c \<lparr>AssetID = asset, Amount = a\<rparr> acc [] w")
    case (Pair res w1)
    show ?thesis
    proof (cases res)
      case (Inl err)
      with Pair Cons.prems show ?thesis by auto
    next
      case (Inr d)
      with Pair Cons.prems have "change_destinations c asset acc amounts (dests @ [d]) w1 = (Inl e, w')"
        by simp
      from Cons.IH [OF this] show ?thesis by auto
    qed
  qed
qed

text \<open>
  The loop over the change amounts calls \<^verbatim>\<open>NewAccountDestination\<close> once for every
  amount, each call in the world the call before it left.
\<close>

lemma change_destinations_worlds:
  assumes "change_destinations c asset acc amounts dests w = (Inr dests', w')"
  shows "\<exists>new ws. dests' = dests @ new \<and> length new = length amounts \<and>
           length ws = Suc (length amounts) \<and> ws ! 0 = w \<and> ws ! length amounts = w' \<and>
           (\<forall>i < length amounts.
              NewAccountDestination c \<lparr>AssetID = asset, Amount = amounts ! i\<rparr> acc []
                (ws ! i) = (Inr (new ! i), ws ! Suc i))"
  using assms
proof (induction amounts arbitrary: dests w)
  case Nil
  then have "dests' = dests @ [] \<and> length ([] :: txbuilder_Destination list) = length ([] :: uint64 list) \<and>
      length [w] = Suc (length ([] :: uint64 list)) \<and> [w] ! 0 = w \<and> [w] ! length ([] :: uint64 list) = w'"
    by simp
  then show ?case by (intro exI [of _ "[]"] exI [of _ "[w]"]) simp
next
  case (Cons a amounts)
  from Cons.prems obtain d w1 where
    it: "NewAccountDestination c \<lparr>AssetID = asset, Amount = a\<rparr> acc [] w = (Inr d, w1)" and
    rest: "change_destinations c asset acc amounts (dests @ [d]) w1 = (Inr dests', w')"
    by (auto split: prod.splits sum.splits)
  from Cons.IH [OF rest] obtain new ws where
    n: "dests' = (dests @ [d]) @ new" "length new = length amounts"
       "length ws = Suc (length amounts)" "ws ! 0 = w1" "ws ! length amounts = w'"
       "\<forall>i < length amounts.
          NewAccountDestination c \<lparr>AssetID = asset, Amount = amounts ! i\<rparr> acc []
            (ws ! i) = (Inr (new ! i), ws ! Suc i)"
    by blast
  have step: "\<forall>i < length (a # amounts).
          NewAccountDestination c \<lparr>AssetID = asset, Amount = (a # amounts) ! i\<rparr> acc []
            ((w # ws) ! i) = (Inr ((d # new) ! i), (w # ws) ! Suc i)"
  proof (intro allI impI)
    fix i
    assume "i < length (a # amounts)"
    then show "NewAccountDestination c \<lparr>AssetID = asset, Amount = (a # amounts) ! i\<rparr> acc []
            ((w # ws) ! i) = (Inr ((d # new) ! i), (w # ws) ! Suc i)"
      using it n(4,6) by (cases i) simp_all
  qed
  have "dests' = dests @ (d # new)" using n(1) by simp
  moreover have "length (d # new) = length (a # amounts)" using n(2) by simp
  moreover have "length (w # ws) = Suc (length (a # amounts))" using n(3) by simp
  moreover have "(w # ws) ! 0 = w" by simp
  moreover have "(w # ws) ! length (a # amounts) = w'" using n(5) by simp
  ultimately show ?case using step by blast
qed

lemma items_amounts:
  assumes "list_all2 (\<lambda>r item. \<exists>wa wb. reserve_item c r wa = (Inr item, wb)) reserved items"
  shows "map (\<lambda>i. TxInput_Amount (TxInput i)) items = map UTXO_Amount reserved"
  using assms
proof (induction rule: list_all2_induct)
  case Nil
  show ?case by simp
next
  case (Cons r rs item items)
  from Cons(1) obtain wa wb where "reserve_item c r wa = (Inr item, wb)" by blast
  from reserve_item_Inr [OF this] have "TxInput_Amount (TxInput item) = UTXO_Amount r"
    by (auto simp: bc_NewSpendInput_def)
  with Cons show ?case by simp
qed

lemma dests_amounts:
  assumes "list_all2 (\<lambda>a d. \<exists>wa wb.
             NewAccountDestination c \<lparr>AssetID = asset, Amount = a\<rparr> acc [] wa = (Inr d, wb))
           amounts dests"
  shows "map Dest_AssetAmount dests = map (\<lambda>a. \<lparr>AssetID = asset, Amount = a\<rparr>) amounts"
  using assms
proof (induction rule: list_all2_induct)
  case Nil
  show ?case by simp
next
  case (Cons a as d ds)
  from Cons(1) obtain wa wb where
    "NewAccountDestination c \<lparr>AssetID = asset, Amount = a\<rparr> acc [] wa = (Inr d, wb)" by blast
  from NewAccountDestination_Inr [OF this]
  have "Dest_AssetAmount d = \<lparr>AssetID = asset, Amount = a\<rparr>" by auto
  with Cons show ?case by simp
qed

lemma reserve_items_append:
  "reserve_items c (pre @ rs) items w =
     (case reserve_items c pre items w of
        (Inl e, w') \<Rightarrow> (Inl e, w')
      | (Inr items', w') \<Rightarrow> reserve_items c rs items' w')"
  by (induction pre arbitrary: items w) (auto split: prod.splits sum.splits)

lemma change_destinations_append:
  "change_destinations c asset acc (pre @ rest) dests w =
     (case change_destinations c asset acc pre dests w of
        (Inl e, w') \<Rightarrow> (Inl e, w')
      | (Inr dests', w') \<Rightarrow> change_destinations c asset acc rest dests' w')"
  by (induction pre arbitrary: dests w) (auto split: prod.splits sum.splits)

subsection \<open>Reserve\<close>

lemma Reserve_unfold:
  "Reserve c reserver aa ttl (w, g) =
     (case utxodb_Reserve c [utxodbSource_of reserver aa] ttl w of
        (Inl err, w1) \<Rightarrow> (Inl (Err err), w1, g)
      | (Inr (reserved, change), w1) \<Rightarrow>
          (case reserve_items c reserved [] w1 of
             (Inl err, w2) \<Rightarrow> (Inl (Err err), w2, g)
           | (Inr items, w2) \<Rightarrow>
               (case change of
                  [] \<Rightarrow> (Inr \<lparr>Items = items, Change = []\<rparr>, w2, g)
                | ch # chs \<Rightarrow>
                    (case breakupChange (Change_Amount ch) g of
                       (Inl p, g1) \<Rightarrow> (Inl (Panicked p), w2, g1)
                     | (Inr changeAmounts, g1) \<Rightarrow>
                         (case change_destinations c (AssetID aa) (AccountID reserver)
                                 changeAmounts [] w2 of
                            (Inl err, w3) \<Rightarrow> (Inl (Err err), w3, g1)
                          | (Inr dests, w3) \<Rightarrow>
                              (Inr \<lparr>Items = items, Change = dests\<rparr>, w3, g1))))))"
  by (simp add: Reserve_def Let_def split: prod.splits sum.splits list.splits)

lemma Reserve_Inr:
  assumes "Reserve c reserver aa ttl (w, g) = (Inr result, (w', g'))"
  shows "\<exists>reserved change w1 w2.
           utxodb_Reserve c [utxodbSource_of reserver aa] ttl w = (Inr (reserved, change), w1) \<and>
           reserve_items c reserved [] w1 = (Inr (Items result), w2) \<and>
           (case change of
              [] \<Rightarrow> Change result = [] \<and> w' = w2 \<and> g' = g
            | ch # chs \<Rightarrow>
                (\<exists>amounts. breakupChange (Change_Amount ch) g = (Inr amounts, g') \<and>
                   change_destinations c (AssetID aa) (AccountID reserver) amounts [] w2 =
                     (Inr (Change result), w')))"
  using assms
  by (auto simp: Reserve_unfold split: prod.splits sum.splits list.splits)

lemma Reserve_Inl_Err:
  assumes "Reserve c reserver aa ttl (w, g) = (Inl (Err e), (w', g'))"
  shows "utxodb_Reserve c [utxodbSource_of reserver aa] ttl w = (Inl e, w') \<or>
         (\<exists>reserved change w1.
            utxodb_Reserve c [utxodbSource_of reserver aa] ttl w = (Inr (reserved, change), w1) \<and>
            (reserve_items c reserved [] w1 = (Inl e, w') \<or>
             (\<exists>items w2 ch chs amounts g1. change = ch # chs \<and>
                reserve_items c reserved [] w1 = (Inr items, w2) \<and>
                breakupChange (Change_Amount ch) g = (Inr amounts, g1) \<and>
                change_destinations c (AssetID aa) (AccountID reserver) amounts [] w2 = (Inl e, w'))))"
  using assms
  by (auto simp: Reserve_unfold split: prod.splits sum.splits list.splits)

subsection \<open>The example, evaluated\<close>

lemmas example_defs = example_collaborators_def example_utxo_def example_reserver_def USD_def
  utxodbSource_of_def example_item_def example_change_def example_draws_def

lemmas Reserve_eval = Reserve_unfold reserve_item_def NewAccountDestination_def
  NewAccountReceiver_def AddWitnessSigs_def AddWitnessData_def errors_Wrap_def
  breakupChange_def breakupChange_loop_unfold rand_advance_def bc_NewSpendInput_def PKScript_def

lemma example_reserve_150:
  "Reserve (example_collaborators [example_utxo 200] [50]) example_reserver
       \<lparr>AssetID = USD, Amount = 150\<rparr> 60 (0, example_draws) =
     (Inr \<lparr>Items = [example_item], Change = [example_change 0 17, example_change 1 33]\<rparr>,
      2, \<lambda>_. 1)"
  by (simp add: Reserve_eval example_defs)

lemma example_engine_150:
  "utxodb_Reserve (example_collaborators [example_utxo 200] [50])
       [utxodbSource_of example_reserver \<lparr>AssetID = USD, Amount = 150\<rparr>] 60 0 =
     (Inr ([example_utxo 200],
           [\<lparr>Change_Source = utxodbSource_of example_reserver \<lparr>AssetID = USD, Amount = 150\<rparr>,
             Change_Amount = 50\<rparr>]), 0)"
  by (simp add: example_defs)

subsection \<open>The claims about NewAccountDestination and Reserve\<close>

text \<open>
  C8. \<^verbatim>\<open>NewAccountDestination\<close> asks the account directory for one control program
  for the account. When the directory allocates the program \<open>acp\<close>, leaving the world in
  \<open>w'\<close>, the call returns a destination with the asset amount and the metadata it was
  given and a receiver whose script is \<open>acp\<close>, in that world. When the allocation
  fails, the call returns that error as it is, and no destination.
\<close>

theorem NewAccountDestination_result:
  "(accounts_CreateControlProgram c acc w = (Inr acp, w') \<longrightarrow>
      (\<exists>d. NewAccountDestination c assetAmount acc metadata w = (Inr d, w') \<and>
           Dest_AssetAmount d = assetAmount \<and> Metadata d = metadata \<and>
           PKScript (Receiver d) = acp \<and> accountID (Receiver d) = acc)) \<and>
   (accounts_CreateControlProgram c acc w = (Inl err, w') \<longrightarrow>
      NewAccountDestination c assetAmount acc metadata w = (Inl err, w'))"
  by (simp add: NewAccountDestination_def NewAccountReceiver_def PKScript_def)

text \<open>
  The directory of the example allocates the program \<open>[0]\<close> first, and fails once it has
  allocated three.
\<close>

theorem NewAccountDestination_result_witness:
  "(\<exists>d. NewAccountDestination (example_collaborators [] []) \<lparr>AssetID = USD, Amount = 50\<rparr>
          ''acc1'' [9] 0 = (Inr d, 1) \<and>
        Dest_AssetAmount d = \<lparr>AssetID = USD, Amount = 50\<rparr> \<and> Metadata d = [9] \<and>
        PKScript (Receiver d) = [0] \<and> accountID (Receiver d) = ''acc1'') \<and>
   NewAccountDestination (example_collaborators [] []) \<lparr>AssetID = USD, Amount = 50\<rparr>
     ''acc1'' [9] 3 = (Inl (Error ''AllocationFailed''), 3)"
proof (rule conjI, goal_cases)
  case 1
  have "accounts_CreateControlProgram (example_collaborators [] []) ''acc1'' 0 = (Inr [0], 1)"
    by (simp add: example_defs)
  then show ?case
    by (rule NewAccountDestination_result [THEN conjunct1, THEN mp])
next
  case 2
  have "accounts_CreateControlProgram (example_collaborators [] []) ''acc1'' 3 =
          (Inl (Error ''AllocationFailed''), 3)"
    by (simp add: example_defs)
  then show ?case
    by (rule NewAccountDestination_result [THEN conjunct2, THEN mp])
qed

text \<open>
  C10. The splitter returns the empty sequence for the total 0, without a draw. So when
  the first change bucket has the amount 0, \<^verbatim>\<open>Reserve\<close> returns the items with no
  change destination; it allocates nothing and draws nothing.
\<close>

theorem Reserve_zero_change:
  "breakupChange 0 g = (Inr [], g) \<and>
   (utxodb_Reserve c [utxodbSource_of reserver aa] ttl w = (Inr (reserved, ch # chs), w1) \<and>
    Change_Amount ch = 0 \<and> reserve_items c reserved [] w1 = (Inr items, w2) \<longrightarrow>
      Reserve c reserver aa ttl (w, g) = (Inr \<lparr>Items = items, Change = []\<rparr>, w2, g))"
  by (simp add: breakupChange_0 Reserve_unfold)

text \<open>
  The engine of the example reports one bucket of 0 for a request of the whole output.
\<close>

theorem Reserve_zero_change_witness:
  "Change_Amount \<lparr>Change_Source = utxodbSource_of example_reserver \<lparr>AssetID = USD, Amount = 200\<rparr>,
                  Change_Amount = 0\<rparr> = 0 \<and>
   Reserve (example_collaborators [example_utxo 200] [0]) example_reserver
       \<lparr>AssetID = USD, Amount = 200\<rparr> 60 (0, \<lambda>_. 0) =
     (Inr \<lparr>Items = [\<lparr>TxInput = bc_NewSpendInput [7] 0 [] USD 200 [81] [],
                      TemplateInput = \<lparr>Input_AssetID = USD, Input_Amount = 200,
                        WitnessComponents =
                          [SignatureWitness [11, 12, 13] 2 [], DataWitness [28, 30, 32]]\<rparr>\<rparr>],
           Change = []\<rparr>, 0, \<lambda>_. 0)"
  using Reserve_zero_change [of "\<lambda>_. 0" "example_collaborators [example_utxo 200] [0]"
          example_reserver "\<lparr>AssetID = USD, Amount = 200\<rparr>" 60 0 "[example_utxo 200]"
          "\<lparr>Change_Source = utxodbSource_of example_reserver \<lparr>AssetID = USD, Amount = 200\<rparr>,
            Change_Amount = 0\<rparr>" "[]" 0
          "[\<lparr>TxInput = bc_NewSpendInput [7] 0 [] USD 200 [81] [],
             TemplateInput = \<lparr>Input_AssetID = USD, Input_Amount = 200,
               WitnessComponents =
                 [SignatureWitness [11, 12, 13] 2 [], DataWitness [28, 30, 32]]\<rparr>\<rparr>]" 0]
  by (simp add: example_defs reserve_item_def AddWitnessSigs_def AddWitnessData_def)

text \<open>
  C4. When \<^verbatim>\<open>Reserve\<close> returns, its items are the reserved outputs in order, one
  each. The template input of an output has the asset and the amount of the output and
  two witness components: the signer identifiers of the account's keys along the path of
  the account key space at the output's control program index, with the account's
  quorum, and then, as data, the redeem script, which is the multisig script of the raw
  public keys of the keys derived along that path, with that quorum.
\<close>

theorem Reserve_template_inputs:
  assumes "Reserve c reserver aa ttl (w, g) = (Inr result, w', g')"
    and "utxodb_Reserve c [utxodbSource_of reserver aa] ttl w = (Inr (reserved, change), w1)"
  shows "list_all2 (\<lambda>r item. \<exists>acct script wa wb.
           accounts_Find c (UTXO_AccountID r) wa = (Inr acct, wb) \<and>
           txscript_MultiSigScript c
             (hd25519_XPubKeys c (hd25519_DeriveXPubs c (XPubs acct)
                (signers_Path c acct AccountKeySpace (UTXO_ControlProgramIndex r))))
             (Quorum acct) = Inr script \<and>
           TemplateInput item =
             \<lparr>Input_AssetID = UTXO_AssetID r, Input_Amount = UTXO_Amount r,
              WitnessComponents =
                [SignatureWitness
                   (txbuilder_InputSigs c (XPubs acct)
                      (signers_Path c acct AccountKeySpace (UTXO_ControlProgramIndex r)))
                   (Quorum acct) [],
                 DataWitness script]\<rparr>)
         reserved (Items result)"
proof -
  from Reserve_Inr [OF assms(1)] assms(2) obtain w2 where
    "reserve_items c reserved [] w1 = (Inr (Items result), w2)" by auto
  from reserve_items_Inr [OF this]
  have "list_all2 (\<lambda>r item. \<exists>wa wb. reserve_item c r wa = (Inr item, wb)) reserved (Items result)"
    by simp
  then show ?thesis
  proof (rule list_all2_mono)
    fix r item
    assume "\<exists>wa wb. reserve_item c r wa = (Inr item, wb)"
    then obtain wa wb where "reserve_item c r wa = (Inr item, wb)" by blast
    from reserve_item_Inr [OF this] show "\<exists>acct script wa wb.
           accounts_Find c (UTXO_AccountID r) wa = (Inr acct, wb) \<and>
           txscript_MultiSigScript c
             (hd25519_XPubKeys c (hd25519_DeriveXPubs c (XPubs acct)
                (signers_Path c acct AccountKeySpace (UTXO_ControlProgramIndex r))))
             (Quorum acct) = Inr script \<and>
           TemplateInput item =
             \<lparr>Input_AssetID = UTXO_AssetID r, Input_Amount = UTXO_Amount r,
              WitnessComponents =
                [SignatureWitness
                   (txbuilder_InputSigs c (XPubs acct)
                      (signers_Path c acct AccountKeySpace (UTXO_ControlProgramIndex r)))
                   (Quorum acct) [],
                 DataWitness script]\<rparr>" by blast
  qed
qed

text \<open>
  The request of 150 against the output of 200, with a change bucket of 50.
\<close>

theorem Reserve_template_inputs_witness:
  "list_all2 (\<lambda>r item. \<exists>acct script wa wb.
           accounts_Find (example_collaborators [example_utxo 200] [50]) (UTXO_AccountID r) wa =
             (Inr acct, wb) \<and>
           txscript_MultiSigScript (example_collaborators [example_utxo 200] [50])
             (hd25519_XPubKeys (example_collaborators [example_utxo 200] [50])
                (hd25519_DeriveXPubs (example_collaborators [example_utxo 200] [50]) (XPubs acct)
                   (signers_Path (example_collaborators [example_utxo 200] [50]) acct
                      AccountKeySpace (UTXO_ControlProgramIndex r))))
             (Quorum acct) = Inr script \<and>
           TemplateInput item =
             \<lparr>Input_AssetID = UTXO_AssetID r, Input_Amount = UTXO_Amount r,
              WitnessComponents =
                [SignatureWitness
                   (txbuilder_InputSigs (example_collaborators [example_utxo 200] [50]) (XPubs acct)
                      (signers_Path (example_collaborators [example_utxo 200] [50]) acct
                         AccountKeySpace (UTXO_ControlProgramIndex r)))
                   (Quorum acct) [],
                 DataWitness script]\<rparr>)
     [example_utxo 200]
     (Items \<lparr>Items = [example_item], Change = [example_change 0 17, example_change 1 33]\<rparr>)"
  by (rule Reserve_template_inputs [OF example_reserve_150 example_engine_150])

text \<open>
  C3, as amended. When the engine returns the change buckets \<open>ch # chs\<close> and
  \<^verbatim>\<open>Reserve\<close> returns, the change list is made from \<open>ch\<close> alone: the splitter turns the
  amount of \<open>ch\<close> into positive amounts that sum to it (at least one when the amount is
  not 0, none when it is), and the change list has one destination for each, in order. The
  worlds \<open>ws\<close> are the states of the account directory from the end of the loop over
  the reserved outputs to the end of the call: the \<open>i\<close>-th destination is what
  \<^verbatim>\<open>NewAccountDestination\<close> returns for the \<open>i\<close>-th amount in the \<open>i\<close>-th world, it
  carries the control program that the directory allocates there, and the call leaves the
  next world. So every sub-amount has an allocation of its own, and the buckets \<open>chs\<close>
  take no part.
\<close>

theorem Reserve_first_bucket_only:
  assumes "utxodb_Reserve c [utxodbSource_of reserver aa] ttl w = (Inr (reserved, ch # chs), w1)"
    and "Reserve c reserver aa ttl (w, g) = (Inr result, w', g')"
  shows "\<exists>amounts ws.
           breakupChange (Change_Amount ch) g = (Inr amounts, g') \<and>
           (\<forall>a \<in> set amounts. 0 < a) \<and>
           sum_list (map unat amounts) = unat (Change_Amount ch) \<and>
           (0 < Change_Amount ch \<longrightarrow> amounts \<noteq> []) \<and>
           length (Change result) = length amounts \<and>
           length ws = Suc (length amounts) \<and>
           reserve_items c reserved [] w1 = (Inr (Items result), ws ! 0) \<and>
           ws ! length amounts = w' \<and>
           (\<forall>i < length amounts.
              NewAccountDestination c \<lparr>AssetID = AssetID aa, Amount = amounts ! i\<rparr>
                (AccountID reserver) [] (ws ! i) = (Inr (Change result ! i), ws ! Suc i) \<and>
              (\<exists>acp. accounts_CreateControlProgram c (AccountID reserver) (ws ! i) =
                       (Inr acp, ws ! Suc i) \<and>
                     Change result ! i =
                       \<lparr>Dest_AssetAmount = \<lparr>AssetID = AssetID aa, Amount = amounts ! i\<rparr>,
                        Metadata = [],
                        Receiver = \<lparr>controlProgram = acp, accountID = AccountID reserver\<rparr>\<rparr>))"
proof -
  from Reserve_Inr [OF assms(2)] assms(1) obtain amounts w2 where
    it: "reserve_items c reserved [] w1 = (Inr (Items result), w2)" and
    b: "breakupChange (Change_Amount ch) g = (Inr amounts, g')" and
    d: "change_destinations c (AssetID aa) (AccountID reserver) amounts [] w2 =
          (Inr (Change result), w')"
    by auto
  from change_destinations_worlds [OF d] obtain ws where
    ws: "length (Change result) = length amounts" "length ws = Suc (length amounts)"
        "ws ! 0 = w2" "ws ! length amounts = w'"
        "\<forall>i < length amounts.
           NewAccountDestination c \<lparr>AssetID = AssetID aa, Amount = amounts ! i\<rparr>
             (AccountID reserver) [] (ws ! i) = (Inr (Change result ! i), ws ! Suc i)"
    by auto
  have each: "\<forall>i < length amounts.
      NewAccountDestination c \<lparr>AssetID = AssetID aa, Amount = amounts ! i\<rparr>
        (AccountID reserver) [] (ws ! i) = (Inr (Change result ! i), ws ! Suc i) \<and>
      (\<exists>acp. accounts_CreateControlProgram c (AccountID reserver) (ws ! i) =
               (Inr acp, ws ! Suc i) \<and>
             Change result ! i =
               \<lparr>Dest_AssetAmount = \<lparr>AssetID = AssetID aa, Amount = amounts ! i\<rparr>,
                Metadata = [],
                Receiver = \<lparr>controlProgram = acp, accountID = AccountID reserver\<rparr>\<rparr>)"
  proof (intro allI impI)
    fix i
    assume "i < length amounts"
    with ws(5) have n: "NewAccountDestination c \<lparr>AssetID = AssetID aa, Amount = amounts ! i\<rparr>
        (AccountID reserver) [] (ws ! i) = (Inr (Change result ! i), ws ! Suc i)" by simp
    from NewAccountDestination_Inr [OF n] n
    show "NewAccountDestination c \<lparr>AssetID = AssetID aa, Amount = amounts ! i\<rparr>
        (AccountID reserver) [] (ws ! i) = (Inr (Change result ! i), ws ! Suc i) \<and>
      (\<exists>acp. accounts_CreateControlProgram c (AccountID reserver) (ws ! i) =
               (Inr acp, ws ! Suc i) \<and>
             Change result ! i =
               \<lparr>Dest_AssetAmount = \<lparr>AssetID = AssetID aa, Amount = amounts ! i\<rparr>,
                Metadata = [],
                Receiver = \<lparr>controlProgram = acp, accountID = AccountID reserver\<rparr>\<rparr>)"
      by (simp add: NewAccountReceiver_def)
  qed
  from it ws(3) have it': "reserve_items c reserved [] w1 = (Inr (Items result), ws ! 0)" by simp
  show ?thesis
    using b ws(1,2,4) it' each breakupChange_Inr [OF b] breakupChange_nonempty [OF b]
    by blast
qed

text \<open>
  The bucket of 50 is split into 17 and 33, each with a control program of its own.
\<close>

theorem Reserve_first_bucket_only_witness:
  "\<exists>amounts ws.
     breakupChange
       (Change_Amount
          \<lparr>Change_Source = utxodbSource_of example_reserver \<lparr>AssetID = USD, Amount = 150\<rparr>,
            Change_Amount = 50\<rparr>) example_draws = (Inr amounts, \<lambda>_. 1) \<and>
     (\<forall>a \<in> set amounts. 0 < a) \<and>
     sum_list (map unat amounts) =
       unat (Change_Amount
          \<lparr>Change_Source = utxodbSource_of example_reserver \<lparr>AssetID = USD, Amount = 150\<rparr>,
            Change_Amount = 50\<rparr>) \<and>
     (0 < Change_Amount
          \<lparr>Change_Source = utxodbSource_of example_reserver \<lparr>AssetID = USD, Amount = 150\<rparr>,
            Change_Amount = 50\<rparr> \<longrightarrow> amounts \<noteq> []) \<and>
     length (Change \<lparr>Items = [example_item],
                      Change = [example_change 0 17, example_change 1 33]\<rparr>) = length amounts \<and>
     length ws = Suc (length amounts) \<and>
     reserve_items (example_collaborators [example_utxo 200] [50]) [example_utxo 200] [] 0 =
       (Inr (Items \<lparr>Items = [example_item],
                     Change = [example_change 0 17, example_change 1 33]\<rparr>), ws ! 0) \<and>
     ws ! length amounts = 2 \<and>
     (\<forall>i < length amounts.
        NewAccountDestination (example_collaborators [example_utxo 200] [50])
          \<lparr>AssetID = AssetID \<lparr>AssetID = USD, Amount = 150\<rparr>, Amount = amounts ! i\<rparr>
          (AccountID example_reserver) [] (ws ! i) =
          (Inr (Change \<lparr>Items = [example_item],
                         Change = [example_change 0 17, example_change 1 33]\<rparr> ! i),
           ws ! Suc i) \<and>
        (\<exists>acp. accounts_CreateControlProgram (example_collaborators [example_utxo 200] [50])
                 (AccountID example_reserver) (ws ! i) = (Inr acp, ws ! Suc i) \<and>
               Change \<lparr>Items = [example_item],
                        Change = [example_change 0 17, example_change 1 33]\<rparr> ! i =
                 \<lparr>Dest_AssetAmount =
                    \<lparr>AssetID = AssetID \<lparr>AssetID = USD, Amount = 150\<rparr>, Amount = amounts ! i\<rparr>,
                  Metadata = [],
                  Receiver = \<lparr>controlProgram = acp, accountID = AccountID example_reserver\<rparr>\<rparr>))"
  by (rule Reserve_first_bucket_only [OF example_engine_150 example_reserve_150])

text \<open>
  C3 as stated asks for at least one sub-amount whenever the engine returns a bucket. The
  engine of the example returns one bucket, of amount 0: the splitter returns no
  sub-amount and \<^verbatim>\<open>Reserve\<close> returns no change destination.
\<close>

theorem Reserve_zero_bucket_counterexample:
  "(case utxodb_Reserve (example_collaborators [example_utxo 200] [0])
           [utxodbSource_of example_reserver \<lparr>AssetID = USD, Amount = 200\<rparr>] 60 0 of
      (Inr (reserved, change), w1) \<Rightarrow>
        (case Reserve (example_collaborators [example_utxo 200] [0]) example_reserver
                \<lparr>AssetID = USD, Amount = 200\<rparr> 60 (0, example_draws) of
           (Inr result, st) \<Rightarrow>
             change \<noteq> [] \<and> Change result = [] \<and>
             fst (breakupChange (Change_Amount (change ! 0)) example_draws) = Inr []
         | (Inl f, st) \<Rightarrow> False)
    | (Inl err, w1) \<Rightarrow> False)"
  by (simp add: Reserve_eval example_defs)

text \<open>
  C1, as amended. When \<^verbatim>\<open>Reserve\<close> returns for a positive amount, and the reserved
  outputs sum to the requested amount plus the amount of the first change bucket
  (nothing, when the engine reports no bucket), the amounts of the transaction inputs sum
  to the requested amount plus the amounts of the change destinations. The sums are sums
  of natural numbers.
\<close>

theorem Reserve_amounts_balance:
  assumes "0 < Amount aa"
    and "Reserve c reserver aa ttl (w, g) = (Inr result, w', g')"
    and "utxodb_Reserve c [utxodbSource_of reserver aa] ttl w = (Inr (reserved, change), w1)"
    and "sum_list (map (\<lambda>u. unat (UTXO_Amount u)) reserved) =
           unat (Amount aa) + (case change of [] \<Rightarrow> 0 | ch # chs \<Rightarrow> unat (Change_Amount ch))"
  shows "sum_list (map (\<lambda>i. unat (TxInput_Amount (TxInput i))) (Items result)) =
           unat (Amount aa) +
           sum_list (map (\<lambda>d. unat (Amount (Dest_AssetAmount d))) (Change result))"
proof -
  from Reserve_Inr [OF assms(2)] assms(3) obtain w2 where
    it: "reserve_items c reserved [] w1 = (Inr (Items result), w2)" and
    ch: "case change of
           [] \<Rightarrow> Change result = [] \<and> w' = w2 \<and> g' = g
         | ch # chs \<Rightarrow>
             (\<exists>amounts. breakupChange (Change_Amount ch) g = (Inr amounts, g') \<and>
                change_destinations c (AssetID aa) (AccountID reserver) amounts [] w2 =
                  (Inr (Change result), w'))"
    by auto
  from reserve_items_Inr [OF it]
  have "map (\<lambda>i. TxInput_Amount (TxInput i)) (Items result) = map UTXO_Amount reserved"
    by (simp add: items_amounts)
  then have "map (\<lambda>i. unat (TxInput_Amount (TxInput i))) (Items result) =
               map (\<lambda>u. unat (UTXO_Amount u)) reserved"
    using map_map [of unat "\<lambda>i. TxInput_Amount (TxInput i)" "Items result"]
          map_map [of unat UTXO_Amount reserved]
    by (simp add: comp_def)
  then have inputs: "sum_list (map (\<lambda>i. unat (TxInput_Amount (TxInput i))) (Items result)) =
           unat (Amount aa) + (case change of [] \<Rightarrow> 0 | ch # chs \<Rightarrow> unat (Change_Amount ch))"
    using assms(4) by simp
  have "sum_list (map (\<lambda>d. unat (Amount (Dest_AssetAmount d))) (Change result)) =
          (case change of [] \<Rightarrow> 0 | ch # chs \<Rightarrow> unat (Change_Amount ch))"
  proof (cases change)
    case Nil
    with ch show ?thesis by simp
  next
    case (Cons b bs)
    with ch obtain amounts where
      b: "breakupChange (Change_Amount b) g = (Inr amounts, g')" and
      d: "change_destinations c (AssetID aa) (AccountID reserver) amounts [] w2 =
            (Inr (Change result), w')" by auto
    from change_destinations_Inr [OF d]
    have "map Dest_AssetAmount (Change result) =
            map (\<lambda>a. \<lparr>AssetID = AssetID aa, Amount = a\<rparr>) amounts"
      by (simp add: dests_amounts)
    then have "map (\<lambda>d. unat (Amount (Dest_AssetAmount d))) (Change result) = map unat amounts"
      using map_map [of "\<lambda>x. unat (Amount x)" Dest_AssetAmount "Change result"]
      by (simp add: comp_def)
    with breakupChange_Inr(2) [OF b] Cons show ?thesis by simp
  qed
  with inputs show ?thesis by simp
qed

text \<open>
  The output of 200 covers the 150 requested and the change of 17 and 33.
\<close>

theorem Reserve_amounts_balance_witness:
  "sum_list (map (\<lambda>i. unat (TxInput_Amount (TxInput i)))
       (Items \<lparr>Items = [example_item],
               Change = [example_change 0 17, example_change 1 33]\<rparr>)) =
     unat (Amount \<lparr>AssetID = USD, Amount = 150\<rparr>) +
     sum_list (map (\<lambda>d. unat (Amount (Dest_AssetAmount d)))
       (Change \<lparr>Items = [example_item],
                Change = [example_change 0 17, example_change 1 33]\<rparr>))"
proof (rule Reserve_amounts_balance [OF _ example_reserve_150 example_engine_150])
  show "0 < Amount \<lparr>AssetID = USD, Amount = 150\<rparr>" by simp
  show "sum_list (map (\<lambda>u. unat (UTXO_Amount u)) [example_utxo 200]) =
          unat (Amount \<lparr>AssetID = USD, Amount = 150\<rparr>) +
          (case [\<lparr>Change_Source = utxodbSource_of example_reserver \<lparr>AssetID = USD, Amount = 150\<rparr>,
                   Change_Amount = 50\<rparr>] of
             [] \<Rightarrow> 0 | ch # chs \<Rightarrow> unat (Change_Amount ch))"
    by (simp add: example_utxo_def)
qed

text \<open>
  C1 as stated lets the engine report the excess in any number of buckets. The engine of
  the example reserves the output of 200 for the request of 150 and reports the excess
  as buckets of 30 and 20. \<^verbatim>\<open>Reserve\<close> reads the first only: the inputs sum to 200,
  the requested amount and the change to 180.
\<close>

theorem Reserve_later_buckets_counterexample:
  "(case Reserve (example_collaborators [example_utxo 200] [30, 20]) example_reserver
           \<lparr>AssetID = USD, Amount = 150\<rparr> 60 (0, \<lambda>_. 1) of
      (Inr result, st) \<Rightarrow>
        (case utxodb_Reserve (example_collaborators [example_utxo 200] [30, 20])
                [utxodbSource_of example_reserver \<lparr>AssetID = USD, Amount = 150\<rparr>] 60 0 of
           (Inr (reserved, change), w1) \<Rightarrow>
             sum_list (map (\<lambda>u. unat (UTXO_Amount u)) reserved) =
               unat (150 :: uint64) + sum_list (map (\<lambda>b. unat (Change_Amount b)) change) \<and>
             sum_list (map (\<lambda>i. unat (TxInput_Amount (TxInput i))) (Items result)) \<noteq>
               unat (150 :: uint64) +
               sum_list (map (\<lambda>d. unat (Amount (Dest_AssetAmount d))) (Change result))
         | (Inl err, w1) \<Rightarrow> False)
    | (Inl f, st) \<Rightarrow> False)"
  by (simp add: Reserve_eval example_defs)

text \<open>
  C7. An error of the reservation engine is returned as it is, with the world as the
  engine left it. When the account lookup for a reserved output fails, after the outputs
  before it have been processed, \<^verbatim>\<open>Reserve\<close> returns that error wrapped with
  \<open>get account info\<close>; when the script construction fails, wrapped with
  \<open>compute redeem script\<close>; when the allocation for a change amount fails, after the
  destinations before it have been allocated, wrapped with
  \<open>creating change destination\<close>. In each case the world returned is the world the
  failed call left: nothing is called again. The root of a wrapped error is the root of
  the error wrapped. And \<^verbatim>\<open>Reserve\<close> returns no other error: every error it returns
  is the engine's, or one of these three.
\<close>

theorem Reserve_error_stages:
  "(utxodb_Reserve c [utxodbSource_of reserver aa] ttl w = (Inl err, w1) \<longrightarrow>
      Reserve c reserver aa ttl (w, g) = (Inl (Err err), w1, g)) \<and>
   (utxodb_Reserve c [utxodbSource_of reserver aa] ttl w = (Inr (pre @ r # post, change), w1) \<and>
    reserve_items c pre [] w1 = (Inr items, wa) \<and>
    accounts_Find c (UTXO_AccountID r) wa = (Inl err, wb) \<longrightarrow>
      Reserve c reserver aa ttl (w, g) =
        (Inl (Err (errors_Wrap err ''get account info'')), wb, g)) \<and>
   (utxodb_Reserve c [utxodbSource_of reserver aa] ttl w = (Inr (pre @ r # post, change), w1) \<and>
    reserve_items c pre [] w1 = (Inr items, wa) \<and>
    accounts_Find c (UTXO_AccountID r) wa = (Inr acct, wb) \<and>
    txscript_MultiSigScript c
      (hd25519_XPubKeys c (hd25519_DeriveXPubs c (XPubs acct)
         (signers_Path c acct AccountKeySpace (UTXO_ControlProgramIndex r))))
      (Quorum acct) = Inl err \<longrightarrow>
      Reserve c reserver aa ttl (w, g) =
        (Inl (Err (errors_Wrap err ''compute redeem script'')), wb, g)) \<and>
   (utxodb_Reserve c [utxodbSource_of reserver aa] ttl w = (Inr (reserved, ch # chs), w1) \<and>
    reserve_items c reserved [] w1 = (Inr items, w2) \<and>
    breakupChange (Change_Amount ch) g = (Inr (before @ a # after), g1) \<and>
    change_destinations c (AssetID aa) (AccountID reserver) before [] w2 = (Inr dests, wa) \<and>
    accounts_CreateControlProgram c (AccountID reserver) wa = (Inl err, wb) \<longrightarrow>
      Reserve c reserver aa ttl (w, g) =
        (Inl (Err (errors_Wrap err ''creating change destination'')), wb, g1)) \<and>
   errors_Root (errors_Wrap err tag) = errors_Root err \<and>
   (Reserve c reserver aa ttl (w, g) = (Inl (Err e), w', g') \<longrightarrow>
      utxodb_Reserve c [utxodbSource_of reserver aa] ttl w = (Inl e, w') \<or>
      (\<exists>reserved change w1. 
         utxodb_Reserve c [utxodbSource_of reserver aa] ttl w = (Inr (reserved, change), w1) \<and>
         ((\<exists>r \<in> set reserved. \<exists>wa err.
             accounts_Find c (UTXO_AccountID r) wa = (Inl err, w') \<and>
             e = errors_Wrap err ''get account info'' \<and> errors_Root e = errors_Root err) \<or>
          (\<exists>r \<in> set reserved. \<exists>wa acct err.
             accounts_Find c (UTXO_AccountID r) wa = (Inr acct, w') \<and>
             txscript_MultiSigScript c
               (hd25519_XPubKeys c (hd25519_DeriveXPubs c (XPubs acct)
                  (signers_Path c acct AccountKeySpace (UTXO_ControlProgramIndex r))))
               (Quorum acct) = Inl err \<and>
             e = errors_Wrap err ''compute redeem script'' \<and> errors_Root e = errors_Root err) \<or>
          (\<exists>wa err. change \<noteq> [] \<and>
             accounts_CreateControlProgram c (AccountID reserver) wa = (Inl err, w') \<and>
             e = errors_Wrap err ''creating change destination'' \<and>
             errors_Root e = errors_Root err))))"
proof (intro conjI impI, goal_cases)
  case 1
  then show ?case by (simp add: Reserve_unfold)
next
  case 2
  then show ?case
    by (simp add: Reserve_unfold reserve_items_append reserve_item_def)
next
  case 3
  then show ?case
    by (simp add: Reserve_unfold reserve_items_append reserve_item_def)
next
  case 4
  then show ?case
    by (simp add: Reserve_unfold change_destinations_append NewAccountDestination_def)
next
  case 5
  show ?case by (rule errors_Root_Wrap)
next
  case 6
  from Reserve_Inl_Err [OF 6] consider
    (engine) "utxodb_Reserve c [utxodbSource_of reserver aa] ttl w = (Inl e, w')"
  | (items) reserved change w1 where
      "utxodb_Reserve c [utxodbSource_of reserver aa] ttl w = (Inr (reserved, change), w1)"
      "reserve_items c reserved [] w1 = (Inl e, w')"
  | (dests) reserved change w1 w2 amounts where
      "utxodb_Reserve c [utxodbSource_of reserver aa] ttl w = (Inr (reserved, change), w1)"
      "change \<noteq> []"
      "change_destinations c (AssetID aa) (AccountID reserver) amounts [] w2 = (Inl e, w')"
    by blast
  then show ?case
  proof cases
    case engine
    then show ?thesis by simp
  next
    case items
    from reserve_items_Inl [OF items(2)] obtain r wa where
      r: "r \<in> set reserved" "reserve_item c r wa = (Inl e, w')" by blast
    from reserve_item_Inl [OF r(2)] r(1) items(1) show ?thesis
      by (fastforce simp: errors_Root_Wrap)
  next
    case dests
    from change_destinations_Inl [OF dests(3)] obtain a wa err where
      a: "NewAccountDestination c \<lparr>AssetID = AssetID aa, Amount = a\<rparr> (AccountID reserver) [] wa =
            (Inl err, w')"
         "e = errors_Wrap err ''creating change destination''" by blast
    from NewAccountDestination_Inl [OF a(1)] a(2) dests(1,2) show ?thesis
      by (fastforce simp: errors_Root_Wrap)
  qed
qed

text \<open>
  A request of 300 is more than the engine of the example holds. A directory with room
  for one more control program allocates the first piece of change and fails on the
  second.
\<close>

theorem Reserve_error_stages_witness:
  "Reserve (example_collaborators [example_utxo 200] [50]) example_reserver
       \<lparr>AssetID = USD, Amount = 300\<rparr> 60 (0, example_draws) =
     (Inl (Err (Error ''InsufficientFunds'')), 0, example_draws) \<and>
   Reserve (example_collaborators [example_utxo 200] [50]) example_reserver
       \<lparr>AssetID = USD, Amount = 150\<rparr> 60 (2, example_draws) =
     (Inl (Err (errors_Wrap (Error ''AllocationFailed'') ''creating change destination'')),
      3, \<lambda>_. 1) \<and>
   (utxodb_Reserve (example_collaborators [example_utxo 200] [50])
       [utxodbSource_of example_reserver \<lparr>AssetID = USD, Amount = 150\<rparr>] 60 2 =
     (Inl (Wrapped (Error ''AllocationFailed'') ''creating change destination''), 3) \<or>
    (\<exists>reserved change w1.
       utxodb_Reserve (example_collaborators [example_utxo 200] [50])
         [utxodbSource_of example_reserver \<lparr>AssetID = USD, Amount = 150\<rparr>] 60 2 =
         (Inr (reserved, change), w1) \<and>
       ((\<exists>r \<in> set reserved. \<exists>wa err.
           accounts_Find (example_collaborators [example_utxo 200] [50]) (UTXO_AccountID r) wa =
             (Inl err, 3) \<and>
           Wrapped (Error ''AllocationFailed'') ''creating change destination'' =
             errors_Wrap err ''get account info'' \<and>
           errors_Root (Wrapped (Error ''AllocationFailed'') ''creating change destination'') =
             errors_Root err) \<or>
        (\<exists>r \<in> set reserved. \<exists>wa acct err.
           accounts_Find (example_collaborators [example_utxo 200] [50]) (UTXO_AccountID r) wa =
             (Inr acct, 3) \<and>
           txscript_MultiSigScript (example_collaborators [example_utxo 200] [50])
             (hd25519_XPubKeys (example_collaborators [example_utxo 200] [50])
                (hd25519_DeriveXPubs (example_collaborators [example_utxo 200] [50]) (XPubs acct)
                   (signers_Path (example_collaborators [example_utxo 200] [50]) acct
                      AccountKeySpace (UTXO_ControlProgramIndex r))))
             (Quorum acct) = Inl err \<and>
           Wrapped (Error ''AllocationFailed'') ''creating change destination'' =
             errors_Wrap err ''compute redeem script'' \<and>
           errors_Root (Wrapped (Error ''AllocationFailed'') ''creating change destination'') =
             errors_Root err) \<or>
        (\<exists>wa err. change \<noteq> [] \<and>
           accounts_CreateControlProgram (example_collaborators [example_utxo 200] [50])
             (AccountID example_reserver) wa = (Inl err, 3) \<and>
           Wrapped (Error ''AllocationFailed'') ''creating change destination'' =
             errors_Wrap err ''creating change destination'' \<and>
           errors_Root (Wrapped (Error ''AllocationFailed'') ''creating change destination'') =
             errors_Root err))))"
proof (intro conjI, goal_cases)
  case 1
  have "utxodb_Reserve (example_collaborators [example_utxo 200] [50])
          [utxodbSource_of example_reserver \<lparr>AssetID = USD, Amount = 300\<rparr>] 60 0 =
        (Inl (Error ''InsufficientFunds''), 0)"
    by (simp add: example_defs)
  then show ?case
    by (rule Reserve_error_stages [THEN conjunct1, THEN mp])
next
  case 2
  have "utxodb_Reserve (example_collaborators [example_utxo 200] [50])
          [utxodbSource_of example_reserver \<lparr>AssetID = USD, Amount = 150\<rparr>] 60 2 =
          (Inr ([example_utxo 200],
                \<lparr>Change_Source = utxodbSource_of example_reserver \<lparr>AssetID = USD, Amount = 150\<rparr>,
                  Change_Amount = 50\<rparr> # []), 2) \<and>
        reserve_items (example_collaborators [example_utxo 200] [50]) [example_utxo 200] [] 2 =
          (Inr [example_item], 2) \<and>
        breakupChange
          (Change_Amount
             \<lparr>Change_Source = utxodbSource_of example_reserver \<lparr>AssetID = USD, Amount = 150\<rparr>,
               Change_Amount = 50\<rparr>) example_draws = (Inr ([17] @ 33 # []), \<lambda>_. 1) \<and>
        change_destinations (example_collaborators [example_utxo 200] [50])
          (AssetID \<lparr>AssetID = USD, Amount = 150\<rparr>) (AccountID example_reserver) [17] [] 2 =
          (Inr [example_change 2 17], 3) \<and>
        accounts_CreateControlProgram (example_collaborators [example_utxo 200] [50])
          (AccountID example_reserver) 3 = (Inl (Error ''AllocationFailed''), 3)"
    by (simp add: Reserve_eval example_defs)
  then show ?case
    by (rule Reserve_error_stages
          [THEN conjunct2, THEN conjunct2, THEN conjunct2, THEN conjunct1, THEN mp])
next
  case 3
  have "Reserve (example_collaborators [example_utxo 200] [50]) example_reserver
          \<lparr>AssetID = USD, Amount = 150\<rparr> 60 (2, example_draws) =
        (Inl (Err (Wrapped (Error ''AllocationFailed'') ''creating change destination'')),
         3, \<lambda>_. 1)"
    by (simp add: Reserve_eval example_defs)
  then show ?case
    by (rule Reserve_error_stages
          [THEN conjunct2, THEN conjunct2, THEN conjunct2, THEN conjunct2, THEN conjunct2,
           THEN mp])
qed

subsection \<open>LoadAccountInfo\<close>

lemma map_index_update:
  "map_index (AList.update k v m) p = (if p = k then v else map_index m p)"
  by (simp add: map_index_def update_conv')

lemma map_index_foldl:
  "map_index (foldl (\<lambda>m out. AList.update (ControlProgram out)
                       (map_index m (ControlProgram out) @ [out]) m) m0 outs) p =
     map_index m0 p @ filter (\<lambda>out. ControlProgram out = p) outs"
  by (induction outs arbitrary: m0) (auto simp: map_index_update)

lemma map_index_Nil: "map_index [] p = []"
  by (simp add: map_index_def)

lemma map_index_outsByScript:
  "map_index (outsByScript_of outs) p = filter (\<lambda>out. ControlProgram out = p) outs"
  by (simp add: outsByScript_of_def map_index_foldl map_index_Nil)

lemma foldl_append_map: "foldl (\<lambda>res x. res @ [h x]) res xs = res @ map h xs"
  by (induction xs arbitrary: res) simp_all

lemma row_callback_eq:
  "row_callback n (outsByScript_of outs) result (acc, keyIdx, program) =
     result @ map (\<lambda>out. \<lparr>Output = out, output_AccountID = acc,
                           keyIndex = go_copy (replicate n 0) keyIdx\<rparr>)
                (filter (\<lambda>out. ControlProgram out = program) outs)"
  by (simp add: row_callback_def foldl_append_map map_index_outsByScript)

lemma callback_filter:
  "filter (\<lambda>o'. ControlProgram (Output o') = p)
     (foldl (row_callback n (outsByScript_of outs)) result rows) =
   filter (\<lambda>o'. ControlProgram (Output o') = p) result @
   concat (map (\<lambda>row. map (\<lambda>out. \<lparr>Output = out, output_AccountID = fst row,
                                     keyIndex = go_copy (replicate n 0) (fst (snd row))\<rparr>)
                          (filter (\<lambda>out. ControlProgram out = p) outs))
             (filter (\<lambda>row. snd (snd row) = p) rows))"
proof (induction rows arbitrary: result)
  case Nil
  show ?case by simp
next
  case (Cons row rows)
  obtain acc keyIdx program where row: "row = (acc, keyIdx, program)" by (cases row) auto
  have "filter (\<lambda>o'. ControlProgram (Output o') = p)
          (map (\<lambda>out. \<lparr>Output = out, output_AccountID = acc,
                         keyIndex = go_copy (replicate n 0) keyIdx\<rparr>)
             (filter (\<lambda>out. ControlProgram out = program) outs)) =
        (if program = p
         then map (\<lambda>out. \<lparr>Output = out, output_AccountID = acc,
                         keyIndex = go_copy (replicate n 0) keyIdx\<rparr>)
                (filter (\<lambda>out. ControlProgram out = p) outs)
         else [])"
    by (auto simp: filter_map comp_def filter_empty_conv)
  then show ?case
    by (simp add: Cons.IH row row_callback_eq)
qed

lemma LoadAccountInfo_Inr:
  assumes "LoadAccountInfo pg n outs = Inr result"
  shows "snd (pg (scripts_of outs)) = None"
    and "result = foldl (row_callback n (outsByScript_of outs)) [] (fst (pg (scripts_of outs)))"
  using assms
  by (auto simp: LoadAccountInfo_def scripts_of_def Let_def split: prod.splits option.splits)

lemma go_copy_full: "length src = n \<Longrightarrow> go_copy (replicate n z) src = src"
  by (simp add: go_copy_def)

lemmas index_eval = LoadAccountInfo_def outsByScript_of_def row_callback_def map_index_def
  go_copy_def example_index_def example_index_down_def example_output_def scripts_of_def

lemma example_load:
  "LoadAccountInfo (example_index [(''acc1'', [0, 5], [80])]) 2
       [example_output 0 [80], example_output 1 [80], example_output 2 [81]] =
     Inr [\<lparr>Output = example_output 0 [80], output_AccountID = ''acc1'', keyIndex = [0, 5]\<rparr>,
          \<lparr>Output = example_output 1 [80], output_AccountID = ''acc1'', keyIndex = [0, 5]\<rparr>]"
  by (simp add: index_eval)

lemma go_copy_replicate:
  "go_copy (replicate n z) src = take n src @ replicate (n - length src) z"
  by (simp add: go_copy_def)

text \<open>
  C5, as amended. Let \<^verbatim>\<open>LoadAccountInfo\<close> return, and take the outputs with the
  control program \<open>p\<close>. The result has the whole group once for every row that the
  index query returned for \<open>p\<close>, in the order of the rows, and never a part of it: none
  of the group when there is no row, the group once, in order, when there is the one row
  of the account \<open>acc\<close> with the key index \<open>keyIdx\<close>, and rows times group size in
  general. An annotated output has the account of its row and the key index of its row
  copied into the array of length \<open>n\<close>: the key index itself when the lengths agree,
  cut or filled with zeros otherwise.
\<close>

theorem LoadAccountInfo_groups:
  assumes "LoadAccountInfo pg n outs = Inr result"
  shows "(filter (\<lambda>row. snd (snd row) = p) (fst (pg (scripts_of outs))) = [] \<longrightarrow>
            filter (\<lambda>o'. ControlProgram (Output o') = p) result = []) \<and>
         (filter (\<lambda>row. snd (snd row) = p) (fst (pg (scripts_of outs))) = [(acc, keyIdx, p)] \<longrightarrow>
            filter (\<lambda>o'. ControlProgram (Output o') = p) result =
              map (\<lambda>out. \<lparr>Output = out, output_AccountID = acc,
                            keyIndex = go_copy (replicate n 0) keyIdx\<rparr>)
                (filter (\<lambda>out. ControlProgram out = p) outs) \<and>
            length (filter (\<lambda>o'. ControlProgram (Output o') = p) result) =
              length (filter (\<lambda>out. ControlProgram out = p) outs) \<and>
            (length keyIdx = n \<longrightarrow> go_copy (replicate n 0) keyIdx = keyIdx)) \<and>
         length (filter (\<lambda>o'. ControlProgram (Output o') = p) result) =
           length (filter (\<lambda>row. snd (snd row) = p) (fst (pg (scripts_of outs)))) *
           length (filter (\<lambda>out. ControlProgram out = p) outs) \<and>
         filter (\<lambda>o'. ControlProgram (Output o') = p) result =
           concat (map (\<lambda>row. map (\<lambda>out. \<lparr>Output = out, output_AccountID = fst row,
                                           keyIndex = take n (fst (snd row)) @
                                             replicate (n - length (fst (snd row))) 0\<rparr>)
                                (filter (\<lambda>out. ControlProgram out = p) outs))
                     (filter (\<lambda>row. snd (snd row) = p) (fst (pg (scripts_of outs))))) \<and>
         snd (pg (scripts_of outs)) = None"
proof -
  let ?rows = "filter (\<lambda>row. snd (snd row) = p) (fst (pg (scripts_of outs)))"
  let ?group = "filter (\<lambda>out. ControlProgram out = p) outs"
  have r: "filter (\<lambda>o'. ControlProgram (Output o') = p) result =
          concat (map (\<lambda>row. map (\<lambda>out. \<lparr>Output = out, output_AccountID = fst row,
                                     keyIndex = go_copy (replicate n 0) (fst (snd row))\<rparr>)
                          ?group) ?rows)"
    using LoadAccountInfo_Inr(2) [OF assms] callback_filter [of p n outs "[]"] by simp
  have len: "length (concat (map (\<lambda>row. map (\<lambda>out. \<lparr>Output = out, output_AccountID = fst row,
                                     keyIndex = go_copy (replicate n 0) (fst (snd row))\<rparr>)
                          ?group) rs)) = length rs * length ?group" for rs
    by (induction rs) simp_all
  have r': "filter (\<lambda>o'. ControlProgram (Output o') = p) result =
           concat (map (\<lambda>row. map (\<lambda>out. \<lparr>Output = out, output_AccountID = fst row,
                                           keyIndex = take n (fst (snd row)) @
                                             replicate (n - length (fst (snd row))) 0\<rparr>)
                                ?group) ?rows)"
    using r by (simp add: go_copy_replicate)
  have first: "(?rows = [] \<longrightarrow> filter (\<lambda>o'. ControlProgram (Output o') = p) result = []) \<and>
         (?rows = [(acc, keyIdx, p)] \<longrightarrow>
            filter (\<lambda>o'. ControlProgram (Output o') = p) result =
              map (\<lambda>out. \<lparr>Output = out, output_AccountID = acc,
                            keyIndex = go_copy (replicate n 0) keyIdx\<rparr>) ?group \<and>
            length (filter (\<lambda>o'. ControlProgram (Output o') = p) result) = length ?group \<and>
            (length keyIdx = n \<longrightarrow> go_copy (replicate n 0) keyIdx = keyIdx)) \<and>
         length (filter (\<lambda>o'. ControlProgram (Output o') = p) result) =
           length ?rows * length ?group"
    using r len [of ?rows] by (auto simp: go_copy_full)
  show ?thesis
    using first r' LoadAccountInfo_Inr(1) [OF assms] by blast
qed

text \<open>
  The scenario of the spec: \<open>A\<close> and \<open>B\<close> are annotated, \<open>C\<close> is dropped.
\<close>

theorem LoadAccountInfo_groups_witness:
  "filter (\<lambda>o'. ControlProgram (Output o') = [81])
     [\<lparr>Output = example_output 0 [80], output_AccountID = ''acc1'', keyIndex = [0, 5]\<rparr>,
      \<lparr>Output = example_output 1 [80], output_AccountID = ''acc1'', keyIndex = [0, 5]\<rparr>] = [] \<and>
   filter (\<lambda>o'. ControlProgram (Output o') = [80])
     [\<lparr>Output = example_output 0 [80], output_AccountID = ''acc1'', keyIndex = [0, 5]\<rparr>,
      \<lparr>Output = example_output 1 [80], output_AccountID = ''acc1'', keyIndex = [0, 5]\<rparr>] =
     map (\<lambda>out. \<lparr>Output = out, output_AccountID = ''acc1'',
                   keyIndex = go_copy (replicate 2 0) [0, 5]\<rparr>)
       (filter (\<lambda>out. ControlProgram out = [80])
          [example_output 0 [80], example_output 1 [80], example_output 2 [81]]) \<and>
   length (filter (\<lambda>o'. ControlProgram (Output o') = [80])
     [\<lparr>Output = example_output 0 [80], output_AccountID = ''acc1'', keyIndex = [0, 5]\<rparr>,
      \<lparr>Output = example_output 1 [80], output_AccountID = ''acc1'', keyIndex = [0, 5]\<rparr>]) =
     length (filter (\<lambda>out. ControlProgram out = [80])
          [example_output 0 [80], example_output 1 [80], example_output 2 [81]])"
proof -
  have none: "filter (\<lambda>row. snd (snd row) = [81])
      (fst (example_index [(''acc1'', [0, 5], [80])]
         (scripts_of [example_output 0 [80], example_output 1 [80], example_output 2 [81]]))) = []"
    by (simp add: index_eval)
  have one: "filter (\<lambda>row. snd (snd row) = [80])
      (fst (example_index [(''acc1'', [0, 5], [80])]
         (scripts_of [example_output 0 [80], example_output 1 [80], example_output 2 [81]]))) =
      [(''acc1'', [0, 5], [80])]"
    by (simp add: index_eval)
  note t81 = LoadAccountInfo_groups [OF example_load, of "[81]", THEN conjunct1, THEN mp, OF none]
  note t80 = LoadAccountInfo_groups [OF example_load, of "[80]" "''acc1''" "[0, 5]",
      THEN conjunct2, THEN conjunct1, THEN mp, OF one]
  from t81 t80 show ?thesis by blast
qed

text \<open>
  C5 as stated has either none or exactly the group. An index with two rows for the
  program \<open>P\<close> has the group of two annotated twice, once for each account; and a key
  index of three words is cut to the two of the array.
\<close>

theorem LoadAccountInfo_duplicate_rows_counterexample:
  "(case LoadAccountInfo (example_index [(''acc1'', [0, 5], [80]), (''acc2'', [0, 6], [80])]) 2
           [example_output 0 [80], example_output 1 [80], example_output 2 [81]] of
      Inr result \<Rightarrow>
        length (filter (\<lambda>out. ControlProgram out = [80])
                  [example_output 0 [80], example_output 1 [80], example_output 2 [81]]) = 2 \<and>
        length (filter (\<lambda>o'. ControlProgram (Output o') = [80]) result) = 4 \<and>
        map output_AccountID result = [''acc1'', ''acc1'', ''acc2'', ''acc2'']
    | Inl e \<Rightarrow> False) \<and>
   (case LoadAccountInfo (example_index [(''acc1'', [0, 5, 9], [80])]) 2
           [example_output 0 [80]] of
      Inr result \<Rightarrow> map keyIndex result = [[0, 5]]
    | Inl e \<Rightarrow> False)"
  by (simp add: index_eval)

text \<open>
  C6. \<^verbatim>\<open>LoadAccountInfo\<close> returns the error of the index query when the query fails,
  and no result with it. When the query does not fail it returns a result, whatever rows
  the query gave: with no row at all, the empty result.
\<close>

theorem LoadAccountInfo_errors:
  "(snd (pg (scripts_of outs)) = Some e \<longrightarrow> LoadAccountInfo pg n outs = Inl e) \<and>
   (snd (pg (scripts_of outs)) = None \<longrightarrow> (\<exists>result. LoadAccountInfo pg n outs = Inr result)) \<and>
   (pg (scripts_of outs) = ([], None) \<longrightarrow> LoadAccountInfo pg n outs = Inr [])"
  by (auto simp: LoadAccountInfo_def scripts_of_def Let_def split: prod.splits option.splits)

text \<open>
  The index that is down, the empty index, and an index that knows one of two programs.
\<close>

theorem LoadAccountInfo_errors_witness:
  "LoadAccountInfo example_index_down 2 [example_output 0 [80]] = Inl (Error ''IndexQueryFailed'') \<and>
   (\<exists>result. LoadAccountInfo (example_index [(''acc1'', [0, 5], [80])]) 2
                 [example_output 0 [80], example_output 2 [81]] = Inr result) \<and>
   LoadAccountInfo (example_index []) 2 [example_output 0 [80]] = Inr []"
proof (intro conjI, goal_cases)
  case 1
  have "snd (example_index_down (scripts_of [example_output 0 [80]])) =
          Some (Error ''IndexQueryFailed'')"
    by (simp add: example_index_down_def)
  then show ?case
    by (rule LoadAccountInfo_errors [THEN conjunct1, THEN mp])
next
  case 2
  have "snd (example_index [(''acc1'', [0, 5], [80])]
               (scripts_of [example_output 0 [80], example_output 2 [81]])) = None"
    by (simp add: example_index_def)
  then show ?case
    by (rule LoadAccountInfo_errors [THEN conjunct2, THEN conjunct1, THEN mp])
next
  case 3
  have "example_index [] (scripts_of [example_output 0 [80]]) = ([], None)"
    by (simp add: example_index_def)
  then show ?case
    by (rule LoadAccountInfo_errors [THEN conjunct2, THEN conjunct2, THEN mp])
qed

end
